theory Spec2Isabelle
  imports Main "HOL-Library.Word"
begin

section \<open>ECMAScript values as the component handles them\<close>

text \<open>
  A JavaScript string is a sequence of UTF-16 code units. Program text (the literals of
  \<^verbatim>\<open>InfoForm.tsx\<close>) is written as an Isabelle string and injected with \<open>js\<close>;
  table names, column names and the fixed messages of \<^verbatim>\<open>alert\<close> stay Isabelle strings.
\<close>

type_synonym code_unit = "16 word"

type_synonym jsstring = "code_unit list"

definition js :: "string \<Rightarrow> jsstring" where
  "js s = map of_char s"

text \<open>A \<^verbatim>\<open>File\<close> chosen in a file input: its name and its bytes.\<close>

datatype jsfile = File (file_name: jsstring) (file_bytes: "nat list")

text \<open>
  The values an entry of \<^verbatim>\<open>formData\<close> (\<^verbatim>\<open>Record<string, any>\<close>) takes in this
  component: what the input bindings store (strings, booleans, arrays, files) and what
  the array elements of a decoded answer can be. Numbers and plain objects never enter
  the Answer State through the bindings; a decoded answer that would contain one is
  outside this model (see \<open>Unmodelled\<close> below).
\<close>

datatype jsval =
    JUndefined
  | JNull
  | JBool bool
  | JStr jsstring
  | JArr "jsval list"
  | JFile jsfile

text \<open>ToBoolean, as used by \<^verbatim>\<open>!x\<close>, \<^verbatim>\<open>x || y\<close> and \<^verbatim>\<open>if (x)\<close>.\<close>

fun truthy :: "jsval \<Rightarrow> bool" where
  "truthy JUndefined = False"
| "truthy JNull = False"
| "truthy (JBool b) = b"
| "truthy (JStr s) = (s \<noteq> [])"
| "truthy (JArr xs) = True"
| "truthy (JFile f) = True"

definition js_or :: "jsval \<Rightarrow> jsval \<Rightarrow> jsval" where
  "js_or a b = (if truthy a then a else b)"

text \<open>
  Strict equality \<^verbatim>\<open>===\<close>. Primitives compare by value. Arrays and files compare by
  reference; the component only ever compares an Answer State entry with a field of a
  fetched question or of an option, which is never the same object, so two references
  are unequal here.
\<close>

fun strict_eq :: "jsval \<Rightarrow> jsval \<Rightarrow> bool" where
  "strict_eq JUndefined JUndefined = True"
| "strict_eq JNull JNull = True"
| "strict_eq (JBool a) (JBool b) = (a = b)"
| "strict_eq (JStr a) (JStr b) = (a = b)"
| "strict_eq a b = False"

text \<open>
  \<^verbatim>\<open>String(n)\<close> and the property key of \<^verbatim>\<open>formData[n]\<close> for an integer \<open>n\<close>: the
  decimal numeral. Question identifiers are integers of a database key, far below the
  \<open>10^21\<close> where JavaScript switches to exponent notation.
\<close>

fun digits :: "nat \<Rightarrow> jsstring" where
  "digits n = (if n < 10 then [of_nat (48 + n)] else digits (n div 10) @ [of_nat (48 + n mod 10)])"

declare digits.simps [simp del]

definition String :: "int \<Rightarrow> jsstring" where
  "String n = (if n < 0 then 0x2D # digits (nat (- n)) else digits (nat n))"

text \<open>A number used as a condition (\<^verbatim>\<open>!parent_question_id\<close>): absent, null and 0 are falsy.\<close>

definition truthy_number :: "int option \<Rightarrow> bool" where
  "truthy_number p = (case p of None \<Rightarrow> False | Some n \<Rightarrow> n \<noteq> 0)"

section \<open>Objects as property lists\<close>

text \<open>
  A plain object (\<^verbatim>\<open>formData\<close>, \<^verbatim>\<open>collapsedSections\<close>, the groups of
  \<^verbatim>\<open>groupedQuestions\<close>) is the list of its own properties in the order of their
  creation; a property name occurs once. \<open>map_of\<close> looks a property up.
\<close>

type_synonym 'a object = "(jsstring \<times> 'a) list"

text \<open>
  \<^verbatim>\<open>obj[k] = v\<close>, and the computed property of \<^verbatim>\<open>{...obj, [k]: v}\<close>: an existing
  property keeps its place, a new one comes last.
\<close>

fun assign :: "jsstring \<Rightarrow> 'a \<Rightarrow> 'a object \<Rightarrow> 'a object" where
  "assign k v [] = [(k, v)]"
| "assign k v (p # ps) = (if fst p = k then (k, v) # ps else p # assign k v ps)"

text \<open>
  \<^verbatim>\<open>Object.entries\<close>: the properties whose name is an array index (a canonical decimal
  numeral below \<open>2^32 - 1\<close>) come first, in ascending numeric order, then the others in
  the order of their creation.
\<close>

definition decimal_value :: "jsstring \<Rightarrow> nat" where
  "decimal_value k = foldl (\<lambda>n c. 10 * n + (unat c - 48)) 0 k"

definition array_index :: "jsstring \<Rightarrow> nat option" where
  "array_index k =
     (if k \<noteq> [] \<and> list_all (\<lambda>c. 0x30 \<le> c \<and> c \<le> 0x39) k \<and> digits (decimal_value k) = k
         \<and> decimal_value k < 4294967295
      then Some (decimal_value k) else None)"

definition entries :: "'a object \<Rightarrow> 'a object" where
  "entries obj =
     sort_key (\<lambda>p. case array_index (fst p) of None \<Rightarrow> 0 | Some n \<Rightarrow> n)
       (filter (\<lambda>p. array_index (fst p) \<noteq> None) obj)
     @ filter (\<lambda>p. array_index (fst p) = None) obj"

text \<open>The spread \<^verbatim>\<open>{...a, ...b}\<close>: the properties of \<open>b\<close> are assigned to a copy of \<open>a\<close>.\<close>

definition spread_merge :: "'a object \<Rightarrow> 'a object \<Rightarrow> 'a object" where
  "spread_merge a b = foldl (\<lambda>obj p. assign (fst p) (snd p) obj) a (entries b)"

section \<open>The data model: questions, Answer State, component state\<close>

text \<open>
  The type \<^verbatim>\<open>Question\<close> (lines 13-23). An optional or nullable field is an option
  (\<open>None\<close> for absent or null). \<open>condition_value\<close> is kept as a value because it is
  compared with \<^verbatim>\<open>===\<close>: \<open>JUndefined\<close> when the field is absent, \<open>JNull\<close> when the
  column is null, \<open>JStr\<close> otherwise.
\<close>

record question =
  qid :: int
  form_id :: int
  qsection :: "jsstring option"
  qsubsection :: "jsstring option"
  qtype :: jsstring
  label :: jsstring
  options :: "(jsstring \<times> jsstring) list option"
  parent_question_id :: "int option"
  condition_value :: jsval

type_synonym formdata = "jsval object"

text \<open>
  \<^verbatim>\<open>formData[k]\<close>: the stored value, \<^verbatim>\<open>undefined\<close> when there is no entry. This takes
  \<^verbatim>\<open>Object.prototype\<close> as the engine provides it, with no property under a decimal
  numeral or under \<^verbatim>\<open>contactEmail\<close>; what the page adds to it is followed in the section
  on inherited properties.
\<close>

definition get :: "formdata \<Rightarrow> jsstring \<Rightarrow> jsval" where
  "get fd k = (case map_of fd k of None \<Rightarrow> JUndefined | Some v \<Rightarrow> v)"

text \<open>The five \<^verbatim>\<open>useState\<close> cells of \<^verbatim>\<open>DynamicForm\<close> (lines 29-37).\<close>

record state =
  questions :: "question list"
  formData :: formdata
  loading :: bool
  submitted :: bool
  collapsedSections :: "bool object"

section \<open>The visibility test of \<^verbatim>\<open>renderQuestion\<close>\<close>

text \<open>
  Lines 146-148:
  \<^verbatim>\<open>!parent_question_id || (parent_question_id && formData[parent_question_id] === condition_value)\<close>.
\<close>

definition shouldDisplay :: "formdata \<Rightarrow> question \<Rightarrow> bool" where
  "shouldDisplay fd q =
     (case parent_question_id q of
        None \<Rightarrow> True
      | Some p \<Rightarrow>
          \<not> truthy_number (Some p) \<or>
          (truthy_number (Some p) \<and> strict_eq (get fd (String p)) (condition_value q)))"

section \<open>Remote collaborators and observable effects\<close>

text \<open>An error object returned or thrown by the Supabase client, with its message.\<close>

datatype err = Err string

text \<open>The \<^verbatim>\<open>{ data, error }\<close> pair every Supabase call resolves to.\<close>

datatype 'a response = Response (data: "'a option") (error: "err option")

text \<open>
  A row sent to a table: the properties of the object literal, in the order written.
  \<open>Num\<close> is a number that is an integer; \<open>NumberOf k\<close> is \<^verbatim>\<open>Number(k)\<close> for a property
  key \<open>k\<close>, kept unevaluated (the identifier for the key of a question, \<^verbatim>\<open>NaN\<close> for a
  key such as \<^verbatim>\<open>contactEmail\<close>). \<open>Inherited\<close> is an array of question objects, which is
  what a property read yields when it finds the property on \<^verbatim>\<open>Object.prototype\<close> (see
  the section on inherited properties).
\<close>

datatype cell = Num int | NumberOf jsstring | Val jsval | Inherited "question list"

type_synonym row = "(string \<times> cell) list"

text \<open>
  What a handler does besides updating the state, in the order it does it.
  \<open>SelectSingleInherited\<close> is the query of \<open>SelectSingle\<close> with an inherited array of
  question objects as the value to match.
\<close>

datatype effect =
    Upload string jsstring jsfile
  | Upsert string "row list" string
  | SelectSingle string string string jsval
  | SelectSingleInherited string string string "question list"
  | Select string string string int
  | ConsoleError string
  | Alert string
  | NativeSubmit

section \<open>The submission pipeline: \<^verbatim>\<open>handleSubmit\<close> (lines 92-139)\<close>

text \<open>
  The storage answers the upload issued for the question at position \<open>i\<close> of the list
  with \<open>upload i path file\<close>; the responses table answers the upsert with
  \<open>upsert_responses rows\<close>, the \<^verbatim>\<open>error\<close> of its response.
\<close>

record submit_env =
  upload :: "nat \<Rightarrow> jsstring \<Rightarrow> jsfile \<Rightarrow> jsstring response"
  upsert_responses :: "row list \<Rightarrow> err option"

text \<open>
  The guard of lines 102-105: the question is of type \<^verbatim>\<open>file\<close> and its entry is a
  \<^verbatim>\<open>File\<close>.
\<close>

definition file_to_upload :: "formdata \<Rightarrow> question \<Rightarrow> jsfile option" where
  "file_to_upload fd q =
     (if qtype q = js ''file''
      then (case get fd (String (qid q)) of JFile f \<Rightarrow> Some f | _ \<Rightarrow> None)
      else None)"

text \<open>
  The callback of \<^verbatim>\<open>questions.map\<close> (lines 98-122) for the question at position \<open>i\<close>:
  the record it resolves to, or the error it throws.
\<close>

definition prepare :: "submit_env \<Rightarrow> formdata \<Rightarrow> nat \<Rightarrow> question \<Rightarrow> err + row" where
  "prepare env fd i q =
     (let answer = js_or (get fd (String (qid q))) (JStr [])
      in case file_to_upload fd q of
           Some f \<Rightarrow>
             (let r = upload env i (js ''files/'' @ file_name f) f
              in case error r of
                   Some fileError \<Rightarrow> Inl fileError
                 | None \<Rightarrow>
                     Inr [(''question_id'', Num (qid q)),
                          (''answer'', Val (js_or (JStr (case data r of None \<Rightarrow> [] | Some p \<Rightarrow> p)) (JStr [])))])
         | None \<Rightarrow> Inr [(''question_id'', Num (qid q)), (''answer'', Val answer)])"

text \<open>
  \<^verbatim>\<open>Promise.all\<close> over the callbacks, from position \<open>i\<close> on: all the records, in the order
  of the questions, or a rejection as soon as one callback throws (the model reports the
  first in list order; the handler only logs it).
\<close>

fun responsePayload :: "submit_env \<Rightarrow> formdata \<Rightarrow> nat \<Rightarrow> question list \<Rightarrow> err + row list" where
  "responsePayload env fd i [] = Inr []"
| "responsePayload env fd i (q # qs) =
     (case prepare env fd i q of
        Inl e \<Rightarrow> Inl e
      | Inr r \<Rightarrow> (case responsePayload env fd (Suc i) qs of Inl e \<Rightarrow> Inl e | Inr rs \<Rightarrow> Inr (r # rs)))"

text \<open>
  Every callback runs up to its \<^verbatim>\<open>await\<close> before any upload resolves, so an upload is
  issued for every file question whether or not another one fails.
\<close>

fun uploads :: "formdata \<Rightarrow> question list \<Rightarrow> effect list" where
  "uploads fd [] = []"
| "uploads fd (q # qs) =
     (case file_to_upload fd q of
        Some f \<Rightarrow> Upload ''profile_photo'' (js ''files/'' @ file_name f) f # uploads fd qs
      | None \<Rightarrow> uploads fd qs)"

definition submission_alert :: string where
  "submission_alert = ''An error occurred while submitting the form. Please try again.''"

definition handleSubmit :: "submit_env \<Rightarrow> state \<Rightarrow> state \<times> effect list" where
  "handleSubmit env st =
     (case responsePayload env (formData st) 0 (questions st) of
        Inl e \<Rightarrow>
          (st\<lparr>loading := False\<rparr>,
           uploads (formData st) (questions st)
             @ [ConsoleError ''Submission error:'', Alert submission_alert])
      | Inr payload \<Rightarrow>
          (case upsert_responses env payload of
             Some responseError \<Rightarrow>
               (st\<lparr>loading := False\<rparr>,
                uploads (formData st) (questions st)
                  @ [Upsert ''responses'' payload ''organization_id,question_id'',
                     ConsoleError ''Submission error:'', Alert submission_alert])
           | None \<Rightarrow>
               (st\<lparr>submitted := True, loading := False\<rparr>,
                uploads (formData st) (questions st)
                  @ [Upsert ''responses'' payload ''organization_id,question_id''])))"

section \<open>Input bindings: the change handlers (lines 66-86, 320-387)\<close>

text \<open>The built-in exceptions the handlers can run into.\<close>

datatype js_error = TypeError | SyntaxError | RangeError

text \<open>
  What \<^verbatim>\<open>handleChange\<close> reads from \<^verbatim>\<open>e.target\<close>: whether it is an \<^verbatim>\<open>HTMLInputElement\<close>,
  its \<^verbatim>\<open>name\<close>, \<^verbatim>\<open>type\<close>, \<^verbatim>\<open>value\<close> and \<^verbatim>\<open>checked\<close>.
\<close>

record target =
  is_input :: bool
  target_name :: jsstring
  target_type :: jsstring
  target_value :: jsstring
  target_checked :: bool

definition handleChange :: "target \<Rightarrow> formdata \<Rightarrow> formdata" where
  "handleChange t prevData =
     (if is_input t \<and> target_type t = js ''checkbox''
      then assign (target_name t) (JBool (target_checked t)) prevData
      else assign (target_name t) (JStr (target_value t)) prevData)"

text \<open>
  Iterating a string, as the spread \<^verbatim>\<open>[...currentValues, value]\<close> does when
  \<^verbatim>\<open>currentValues\<close> is a string: one element per code point, a leading surrogate
  followed by a trailing one forming a single element.
\<close>

definition is_lead :: "code_unit \<Rightarrow> bool" where
  "is_lead c = (0xD800 \<le> c \<and> c \<le> 0xDBFF)"

definition is_trail :: "code_unit \<Rightarrow> bool" where
  "is_trail c = (0xDC00 \<le> c \<and> c \<le> 0xDFFF)"

fun code_points :: "jsstring \<Rightarrow> jsstring list" where
  "code_points [] = []"
| "code_points [c] = [[c]]"
| "code_points (c # d # cs) =
     (if is_lead c \<and> is_trail d then [c, d] # code_points cs else [c] # code_points (d # cs))"

text \<open>\<^verbatim>\<open>[...v]\<close>: arrays and strings are iterable, booleans and files are not.\<close>

fun spread :: "jsval \<Rightarrow> js_error + jsval list" where
  "spread (JArr xs) = Inr xs"
| "spread (JStr s) = Inr (map JStr (code_points s))"
| "spread v = Inl TypeError"

text \<open>\<^verbatim>\<open>v.filter(p)\<close>: only an array has the method.\<close>

fun array_filter :: "(jsval \<Rightarrow> bool) \<Rightarrow> jsval \<Rightarrow> js_error + jsval list" where
  "array_filter p (JArr xs) = Inr (filter p xs)"
| "array_filter p v = Inl TypeError"

text \<open>
  \<^verbatim>\<open>handleCheckboxChange\<close> (lines 357-374), applied to the \<^verbatim>\<open>value\<close> and \<^verbatim>\<open>checked\<close> of
  the event target. An exception inside the state updater leaves no new state.
\<close>

definition handleCheckboxChange :: "jsstring \<Rightarrow> bool \<Rightarrow> int \<Rightarrow> formdata \<Rightarrow> js_error + formdata" where
  "handleCheckboxChange val chk questionId prevData =
     (let currentValues = js_or (get prevData (String questionId)) (JArr []);
          updatedValues =
            (if chk
             then (case spread currentValues of Inl e \<Rightarrow> Inl e | Inr xs \<Rightarrow> Inr (xs @ [JStr val]))
             else array_filter (\<lambda>v. \<not> strict_eq v (JStr val)) currentValues)
      in case updatedValues of
           Inl e \<Rightarrow> Inl e
         | Inr xs \<Rightarrow> Inr (assign (String questionId) (JArr xs) prevData))"

text \<open>
  \<^verbatim>\<open>handleFileChange\<close> and \<^verbatim>\<open>handleFilePhotoChange\<close>: \<^verbatim>\<open>e.target.files?.[0]\<close> is the
  chosen file, if any. The upload of \<^verbatim>\<open>handleFilePhotoChange\<close> is commented out, so both
  only store the file.
\<close>

definition handleFileChange :: "jsfile option \<Rightarrow> int \<Rightarrow> formdata \<Rightarrow> formdata" where
  "handleFileChange chosen questionId prevData =
     (case chosen of None \<Rightarrow> prevData | Some f \<Rightarrow> assign (String questionId) (JFile f) prevData)"

definition handleFilePhotoChange :: "jsfile option \<Rightarrow> int \<Rightarrow> formdata \<Rightarrow> formdata" where
  "handleFilePhotoChange chosen questionId prevData =
     (case chosen of None \<Rightarrow> prevData | Some f \<Rightarrow> assign (String questionId) (JFile f) prevData)"

section \<open>The built-ins of the save and resume encoding\<close>

text \<open>\<^verbatim>\<open>typeof\<close>: null, arrays and files are objects.\<close>

fun typeof :: "jsval \<Rightarrow> string" where
  "typeof JUndefined = ''undefined''"
| "typeof JNull = ''object''"
| "typeof (JBool b) = ''boolean''"
| "typeof (JStr s) = ''string''"
| "typeof (JArr xs) = ''object''"
| "typeof (JFile f) = ''object''"

text \<open>\<^verbatim>\<open>s.startsWith(p)\<close> for a one-character \<open>p\<close>.\<close>

definition startsWith :: "jsstring \<Rightarrow> code_unit \<Rightarrow> bool" where
  "startsWith s c = (case s of [] \<Rightarrow> False | x # xs \<Rightarrow> x = c)"

subsection \<open>\<^verbatim>\<open>JSON.stringify\<close>\<close>

text \<open>
  QuoteJSONString of ECMA-262: the string is read by code points; the seven characters
  with a short escape are written with it, every other code unit below \<open>0x20\<close> and
  every lone surrogate as \<^verbatim>\<open>\uXXXX\<close> in lower-case hexadecimal, and everything else
  as it is.
\<close>

definition hexdigit :: "nat \<Rightarrow> code_unit" where
  "hexdigit d = (if d < 10 then of_nat (48 + d) else of_nat (87 + d))"

definition hex4 :: "code_unit \<Rightarrow> jsstring" where
  "hex4 c = map hexdigit [unat c div 4096, unat c div 256 mod 16, unat c div 16 mod 16, unat c mod 16]"

definition escape_unit :: "code_unit \<Rightarrow> jsstring" where
  "escape_unit c =
     (if c = 0x08 then [0x5C, 0x62]
      else if c = 0x09 then [0x5C, 0x74]
      else if c = 0x0A then [0x5C, 0x6E]
      else if c = 0x0C then [0x5C, 0x66]
      else if c = 0x0D then [0x5C, 0x72]
      else if c = 0x22 then [0x5C, 0x22]
      else if c = 0x5C then [0x5C, 0x5C]
      else if c < 0x20 \<or> is_lead c \<or> is_trail c then [0x5C, 0x75] @ hex4 c
      else [c])"

fun quote_units :: "jsstring \<Rightarrow> jsstring" where
  "quote_units [] = []"
| "quote_units [c] = escape_unit c"
| "quote_units (c # d # cs) =
     (if is_lead c \<and> is_trail d then c # d # quote_units cs
      else escape_unit c @ quote_units (d # cs))"

definition quote :: "jsstring \<Rightarrow> jsstring" where
  "quote s = 0x22 # quote_units s @ [0x22]"

fun join :: "jsstring \<Rightarrow> jsstring list \<Rightarrow> jsstring" where
  "join sep [] = []"
| "join sep [x] = x"
| "join sep (x # y # ys) = x @ sep @ join sep (y # ys)"

text \<open>
  SerializeJSONProperty for the values of the model: inside an array \<^verbatim>\<open>undefined\<close> is
  written \<^verbatim>\<open>null\<close>; a \<^verbatim>\<open>File\<close> has no enumerable property of its own and is written
  \<^verbatim>\<open>{}\<close>. The component calls \<^verbatim>\<open>JSON.stringify\<close> only on values whose \<^verbatim>\<open>typeof\<close> is
  \<^verbatim>\<open>object\<close>, for which the result is a string.
\<close>

fun JSON_stringify :: "jsval \<Rightarrow> jsstring" where
  "JSON_stringify JUndefined = js ''null''"
| "JSON_stringify JNull = js ''null''"
| "JSON_stringify (JBool b) = (if b then js ''true'' else js ''false'')"
| "JSON_stringify (JStr s) = quote s"
| "JSON_stringify (JArr xs) = js ''['' @ join (js '','') (map JSON_stringify xs) @ js '']''"
| "JSON_stringify (JFile f) = js ''{}''"

subsection \<open>\<^verbatim>\<open>JSON.parse\<close>\<close>

text \<open>
  A call of a built-in returns, throws, or lies outside the model: a JSON text with a
  number or an object in it is \<open>Unmodelled\<close>, and nothing is claimed about it.
\<close>

datatype 'a outcome = Returns 'a | Throws js_error | Unmodelled

datatype token = LBracket | RBracket | Comma | TNull | TTrue | TFalse | TString jsstring

definition hexval :: "code_unit \<Rightarrow> nat option" where
  "hexval c =
     (if 0x30 \<le> c \<and> c \<le> 0x39 then Some (unat c - 48)
      else if 0x61 \<le> c \<and> c \<le> 0x66 then Some (unat c - 87)
      else if 0x41 \<le> c \<and> c \<le> 0x46 then Some (unat c - 55)
      else None)"

definition unescape :: "code_unit \<Rightarrow> code_unit option" where
  "unescape e =
     (if e = 0x22 then Some 0x22
      else if e = 0x5C then Some 0x5C
      else if e = 0x2F then Some 0x2F
      else if e = 0x62 then Some 0x08
      else if e = 0x66 then Some 0x0C
      else if e = 0x6E then Some 0x0A
      else if e = 0x72 then Some 0x0D
      else if e = 0x74 then Some 0x09
      else None)"

text \<open>
  The characters of a JSON string after its opening quote: the string they denote and
  the number of code units read, closing quote included; \<open>None\<close> when they are not a
  well-formed string.
\<close>

fun lex_string :: "jsstring \<Rightarrow> (jsstring \<times> nat) option" where
  "lex_string [] = None"
| "lex_string (c # cs) =
     (if c = 0x22 then Some ([], 1)
      else if c = 0x5C then
        (case cs of
           [] \<Rightarrow> None
         | e # cs' \<Rightarrow>
             if e = 0x75 then
               (case cs' of
                  h1 # h2 # h3 # h4 # cs'' \<Rightarrow>
                    (case hexval h1 of None \<Rightarrow> None | Some a \<Rightarrow>
                     case hexval h2 of None \<Rightarrow> None | Some b \<Rightarrow>
                     case hexval h3 of None \<Rightarrow> None | Some c' \<Rightarrow>
                     case hexval h4 of None \<Rightarrow> None | Some d \<Rightarrow>
                       map_option (\<lambda>(s, n). (of_nat (((a * 16 + b) * 16 + c') * 16 + d) # s, n + 6))
                         (lex_string cs''))
                | _ \<Rightarrow> None)
             else
               (case unescape e of
                  None \<Rightarrow> None
                | Some u \<Rightarrow> map_option (\<lambda>(s, n). (u # s, n + 2)) (lex_string cs')))
      else if c < 0x20 then None
      else map_option (\<lambda>(s, n). (c # s, n + 1)) (lex_string cs))"

definition cons_token :: "token \<Rightarrow> token list outcome \<Rightarrow> token list outcome" where
  "cons_token t r = (case r of Returns ts \<Rightarrow> Returns (t # ts) | Throws e \<Rightarrow> Throws e | Unmodelled \<Rightarrow> Unmodelled)"

definition is_whitespace :: "code_unit \<Rightarrow> bool" where
  "is_whitespace c = (c = 0x09 \<or> c = 0x0A \<or> c = 0x0D \<or> c = 0x20)"

text \<open>
  The tokens of a JSON text. A brace, a minus sign or a digit outside a string starts an
  object or a number: the text is outside the model. Any other character that starts no
  token makes the text ill-formed.
\<close>

fun lex_text :: "jsstring \<Rightarrow> token list outcome" where
  "lex_text [] = Returns []"
| "lex_text (c # cs) =
     (if is_whitespace c then lex_text cs
      else if c = 0x5B then cons_token LBracket (lex_text cs)
      else if c = 0x5D then cons_token RBracket (lex_text cs)
      else if c = 0x2C then cons_token Comma (lex_text cs)
      else if c = 0x22 then
        (case lex_string cs of
           None \<Rightarrow> Throws SyntaxError
         | Some (s, n) \<Rightarrow> cons_token (TString s) (lex_text (drop n cs)))
      else if c = 0x6E then
        (if take 3 cs = js ''ull'' then cons_token TNull (lex_text (drop 3 cs)) else Throws SyntaxError)
      else if c = 0x74 then
        (if take 3 cs = js ''rue'' then cons_token TTrue (lex_text (drop 3 cs)) else Throws SyntaxError)
      else if c = 0x66 then
        (if take 4 cs = js ''alse'' then cons_token TFalse (lex_text (drop 4 cs)) else Throws SyntaxError)
      else if c = 0x7B \<or> c = 0x2D \<or> (0x30 \<le> c \<and> c \<le> 0x39) then Unmodelled
      else Throws SyntaxError)"

text \<open>
  The parser proper, a stack machine over the tokens: the stack holds the elements read
  so far of every array that is still open, innermost first and each in reverse.
\<close>

datatype expect = AwaitValue | AwaitValueOrClose | AfterValue | Done jsval

definition deliver :: "jsval \<Rightarrow> jsval list list \<Rightarrow> jsval list list \<times> expect" where
  "deliver v stack = (case stack of [] \<Rightarrow> ([], Done v) | f # fs \<Rightarrow> ((v # f) # fs, AfterValue))"

fun close_array :: "jsval list list \<Rightarrow> (jsval list list \<times> expect) option" where
  "close_array [] = None"
| "close_array (f # fs) = Some (deliver (JArr (rev f)) fs)"

fun start_value :: "jsval list list \<Rightarrow> token \<Rightarrow> (jsval list list \<times> expect) option" where
  "start_value stack LBracket = Some ([] # stack, AwaitValueOrClose)"
| "start_value stack TNull = Some (deliver JNull stack)"
| "start_value stack TTrue = Some (deliver (JBool True) stack)"
| "start_value stack TFalse = Some (deliver (JBool False) stack)"
| "start_value stack (TString s) = Some (deliver (JStr s) stack)"
| "start_value stack t = None"

fun parse_step :: "jsval list list \<times> expect \<Rightarrow> token \<Rightarrow> (jsval list list \<times> expect) option" where
  "parse_step (stack, Done v) t = None"
| "parse_step (stack, AfterValue) t =
     (if t = Comma then Some (stack, AwaitValue)
      else if t = RBracket then close_array stack
      else None)"
| "parse_step (stack, AwaitValueOrClose) t =
     (if t = RBracket then close_array stack else start_value stack t)"
| "parse_step (stack, AwaitValue) t = start_value stack t"

fun parse_tokens :: "jsval list list \<times> expect \<Rightarrow> token list \<Rightarrow> (jsval list list \<times> expect) option" where
  "parse_tokens st [] = Some st"
| "parse_tokens st (t # ts) = (case parse_step st t of None \<Rightarrow> None | Some st' \<Rightarrow> parse_tokens st' ts)"

definition JSON_parse :: "jsstring \<Rightarrow> jsval outcome" where
  "JSON_parse text =
     (case lex_text text of
        Returns ts \<Rightarrow>
          (case parse_tokens ([], AwaitValue) ts of
             Some (stack, Done v) \<Rightarrow> Returns v
           | _ \<Rightarrow> Throws SyntaxError)
      | Throws e \<Rightarrow> Throws e
      | Unmodelled \<Rightarrow> Unmodelled)"

text \<open>
  The tokens of the text that \<^verbatim>\<open>JSON.stringify\<close> writes for an array of strings, between
  its brackets (used to state what the lexer returns on such a text).
\<close>

fun string_tokens :: "jsstring list \<Rightarrow> token list" where
  "string_tokens [] = []"
| "string_tokens [x] = [TString x]"
| "string_tokens (x # y # ys) = TString x # Comma # string_tokens (y # ys)"

section \<open>Saving progress: \<^verbatim>\<open>handleSaveProgress\<close> (lines 397-424)\<close>

text \<open>The answer column of a progress row (line 409).\<close>

definition encode :: "jsval \<Rightarrow> jsval" where
  "encode answer = (if typeof answer = ''object'' then JStr (JSON_stringify answer) else answer)"

text \<open>The row built for the entry \<open>(questionId, answer)\<close> of \<^verbatim>\<open>Object.entries(formData)\<close>.\<close>

definition save_row :: "int \<Rightarrow> formdata \<Rightarrow> jsstring \<Rightarrow> jsval \<Rightarrow> row" where
  "save_row formId fd questionId answer =
     [(''form_id'', Num formId),
      (''contactEmail'', Val (get fd (js ''contactEmail''))),
      (''question_id'', NumberOf questionId),
      (''answer'', Val (encode answer))]"

text \<open>One row per entry of the Answer State, the email entry included.\<close>

definition savePayload :: "int \<Rightarrow> formdata \<Rightarrow> row list" where
  "savePayload formId fd = map (\<lambda>p. save_row formId fd (fst p) (snd p)) (entries fd)"

definition handleSaveProgress :: "int \<Rightarrow> (row list \<Rightarrow> err option) \<Rightarrow> state \<Rightarrow> state \<times> effect list" where
  "handleSaveProgress formId upsert_progress st =
     (if \<not> truthy (get (formData st) (js ''contactEmail''))
      then (st, [Alert ''Please enter your email before saving progress.''])
      else
        (case upsert_progress (savePayload formId (formData st)) of
           Some e \<Rightarrow>
             (st, [Upsert ''progress'' (savePayload formId (formData st)) ''form_id,contactEmail,question_id'',
                   ConsoleError ''Error saving progress:'',
                   Alert ''Failed to save progress. Please try again.''])
         | None \<Rightarrow>
             (st, [Upsert ''progress'' (savePayload formId (formData st)) ''form_id,contactEmail,question_id'',
                   Alert ''Progress saved successfully!''])))"

section \<open>Resuming: \<^verbatim>\<open>handleSearch\<close> (lines 426-483)\<close>

text \<open>
  What a query finds: the matching rows, or a failure of the request. An awaited query
  resolves to the rows as \<^verbatim>\<open>data\<close>. With \<^verbatim>\<open>.single()\<close> the result must be exactly one
  row, which becomes \<^verbatim>\<open>data\<close>; for no row or several rows PostgREST answers with the
  error \<^verbatim>\<open>PGRST116\<close> and \<^verbatim>\<open>data\<close> is null.
\<close>

datatype 'a fetched = Rows "'a list" | Failure err

definition awaited :: "'a fetched \<Rightarrow> 'a list response" where
  "awaited r = (case r of Rows xs \<Rightarrow> Response (Some xs) None | Failure e \<Rightarrow> Response None (Some e))"

definition single :: "'a fetched \<Rightarrow> 'a response" where
  "single r =
     (case r of
        Rows [x] \<Rightarrow> Response (Some x) None
      | Rows xs \<Rightarrow> Response None (Some (Err ''PGRST116''))
      | Failure e \<Rightarrow> Response None (Some e))"

text \<open>A row of the responses table as selected: \<^verbatim>\<open>question_id, answer\<close>.\<close>

datatype response_entry = Entry (entry_question_id: int) (entry_answer: jsval)

text \<open>
  The organizations whose \<^verbatim>\<open>contactEmail\<close> equals the given value (their identifiers),
  and the responses of an organization.
\<close>

record search_env =
  find_organizations :: "jsval \<Rightarrow> int fetched"
  find_responses :: "int \<Rightarrow> response_entry fetched"

text \<open>
  Lines 466-468. \<^verbatim>\<open>entry.answer.startsWith\<close> exists only when the answer is a string;
  on anything else the call throws a \<^verbatim>\<open>TypeError\<close>.
\<close>

definition decode :: "jsval \<Rightarrow> jsval outcome" where
  "decode answer =
     (case answer of
        JStr s \<Rightarrow> if startsWith s 0x7B \<or> startsWith s 0x5B then JSON_parse s else Returns (JStr s)
      | _ \<Rightarrow> Throws TypeError)"

text \<open>The \<^verbatim>\<open>forEach\<close> of lines 464-471, filling \<^verbatim>\<open>savedData\<close> entry by entry.\<close>

fun savedData :: "response_entry list \<Rightarrow> formdata \<Rightarrow> formdata outcome" where
  "savedData [] saved = Returns saved"
| "savedData (entry # responses) saved =
     (case decode (entry_answer entry) of
        Returns v \<Rightarrow> savedData responses (assign (String (entry_question_id entry)) v saved)
      | Throws e \<Rightarrow> Throws e
      | Unmodelled \<Rightarrow> Unmodelled)"

definition search_failed :: "state \<Rightarrow> effect list \<Rightarrow> state \<times> effect list" where
  "search_failed st requests =
     (st\<lparr>loading := False\<rparr>,
      requests @ [ConsoleError ''Error fetching progress:'', Alert ''Failed to retrieve saved progress.''])"

definition handleSearch :: "search_env \<Rightarrow> state \<Rightarrow> (state \<times> effect list) outcome" where
  "handleSearch env st =
     (let email = get (formData st) (js ''contactEmail'')
      in if \<not> truthy email
         then Returns (st, [Alert ''Please enter an email to search.''])
         else
           (let org = single (find_organizations env email);
                lookup = SelectSingle ''organizations'' ''id'' ''contactEmail'' email
            in case error org of
                 Some orgError \<Rightarrow> Returns (search_failed st [lookup])
               | None \<Rightarrow>
                   (case data org of
                      None \<Rightarrow>
                        Returns (st\<lparr>loading := False\<rparr>,
                                 [lookup, Alert ''No organization found for this email.''])
                    | Some organizationId \<Rightarrow>
                        (let res = awaited (find_responses env organizationId);
                             fetch = Select ''responses'' ''question_id, answer'' ''organization_id'' organizationId
                         in case error res of
                              Some resError \<Rightarrow> Returns (search_failed st [lookup, fetch])
                            | None \<Rightarrow>
                                (case data res of
                                   None \<Rightarrow> Returns (search_failed st [lookup, fetch])
                                 | Some responses \<Rightarrow>
                                     if responses = []
                                     then Returns (st\<lparr>loading := False\<rparr>,
                                                   [lookup, fetch, Alert ''No saved progress found for this email.''])
                                     else
                                       (case savedData responses [] of
                                          Returns saved \<Rightarrow>
                                            Returns (st\<lparr>formData := spread_merge (formData st) saved, loading := False\<rparr>,
                                                     [lookup, fetch])
                                        | Throws e \<Rightarrow> Returns (search_failed st [lookup, fetch])
                                        | Unmodelled \<Rightarrow> Unmodelled))))))"

section \<open>The rendered form (lines 141-318 and 485-600)\<close>

text \<open>
  The functions of the component that an element can bind to an event. The last three
  are defined in the component; whether any element binds them is a matter of the
  rendered tree.
\<close>

datatype handler =
    HandleChange
  | HandleCheckboxChange int
  | HandleFileChange int
  | HandleFilePhotoChange int
  | ToggleCollapse jsstring
  | HandleSubmit
  | HandleSaveProgress
  | HandleSearch

text \<open>
  A React element: its tag, its props and its children. A prop is a value, a number
  (\<^verbatim>\<open>key={id}\<close>), the object URL of a file or an event handler. A child is an element,
  literal text, or an embedded expression \<^verbatim>\<open>{e}\<close> with its value. The props
  \<^verbatim>\<open>className\<close>, \<^verbatim>\<open>width\<close> and \<^verbatim>\<open>height\<close> are left out.
\<close>

datatype prop_value = PValue jsval | PNum int | PObjectURL jsfile | PHandler handler

datatype node =
    Text string
  | Expr jsval
  | Element string "(string \<times> prop_value) list" "node list"

text \<open>\<^verbatim>\<open>s.includes(v)\<close> on strings: \<open>v\<close> occurs in \<open>s\<close> as a contiguous part.\<close>

fun string_includes :: "jsstring \<Rightarrow> jsstring \<Rightarrow> bool" where
  "string_includes [] v = (v = [])"
| "string_includes (c # cs) v = (take (length v) (c # cs) = v \<or> string_includes cs v)"

text \<open>
  \<^verbatim>\<open>formData[id]?.includes(option.value)\<close> (line 230): undefined on an absent entry, the
  membership test on an array, the substring test on a string; a boolean or a file has
  no such method, and the call throws.
\<close>

fun optional_includes :: "jsval \<Rightarrow> jsstring \<Rightarrow> js_error + jsval" where
  "optional_includes JUndefined v = Inr JUndefined"
| "optional_includes JNull v = Inr JUndefined"
| "optional_includes (JArr xs) v = Inr (JBool (List.member xs (JStr v)))"
| "optional_includes (JStr s) v = Inr (JBool (string_includes s v))"
| "optional_includes (JBool b) v = Inl TypeError"
| "optional_includes (JFile f) v = Inl TypeError"

text \<open>The first exception of a sequence of evaluations, or all their results.\<close>

fun collect :: "(js_error + 'a) list \<Rightarrow> js_error + 'a list" where
  "collect [] = Inr []"
| "collect (r # rs) =
     (case r of
        Inl e \<Rightarrow> Inl e
      | Inr x \<Rightarrow> (case collect rs of Inl e \<Rightarrow> Inl e | Inr xs \<Rightarrow> Inr (x # xs)))"

definition option_list :: "question \<Rightarrow> (jsstring \<times> jsstring) list" where
  "option_list q = (case options q of None \<Rightarrow> [] | Some os \<Rightarrow> os)"

text \<open>\<^verbatim>\<open>formData[id]?.name || formData[id]\<close> (line 252).\<close>

definition name_or_value :: "jsval \<Rightarrow> jsval" where
  "name_or_value v = js_or (case v of JFile f \<Rightarrow> JStr (file_name f) | _ \<Rightarrow> JUndefined) v"

text \<open>The elements of the cases of the \<^verbatim>\<open>switch\<close> that do not recurse.\<close>

definition render_text :: "formdata \<Rightarrow> question \<Rightarrow> node" where
  "render_text fd q =
     Element ''label'' [(''key'', PNum (qid q))]
       [Element ''span'' [] [Expr (JStr (label q))],
        Text '' '',
        Element ''input''
          [(''type'', PValue (JStr (js ''text''))),
           (''name'', PValue (JStr (String (qid q)))),
           (''value'', PValue (js_or (get fd (String (qid q))) (JStr []))),
           (''onChange'', PHandler HandleChange)] []]"

definition render_radio_option :: "formdata \<Rightarrow> question \<Rightarrow> jsstring \<times> jsstring \<Rightarrow> node" where
  "render_radio_option fd q opt =
     Element ''label'' [(''key'', PValue (JStr (snd opt)))]
       [Element ''input''
          [(''type'', PValue (JStr (js ''radio''))),
           (''name'', PValue (JStr (String (qid q)))),
           (''value'', PValue (JStr (snd opt))),
           (''checked'', PValue (JBool (strict_eq (get fd (String (qid q))) (JStr (snd opt))))),
           (''onChange'', PHandler HandleChange)] [],
        Expr (JStr (fst opt))]"

definition render_select :: "formdata \<Rightarrow> question \<Rightarrow> node" where
  "render_select fd q =
     Element ''div'' [(''key'', PNum (qid q))]
       [Element ''label'' [] [Expr (JStr (label q))],
        Element ''select''
          [(''name'', PValue (JStr (String (qid q)))),
           (''value'', PValue (js_or (get fd (String (qid q))) (JStr []))),
           (''onChange'', PHandler HandleChange)]
          (Element ''option'' [(''value'', PValue (JStr []))] [Text ''Select an option'']
           # map (\<lambda>opt. Element ''option'' [(''key'', PValue (JStr (snd opt))), (''value'', PValue (JStr (snd opt)))]
                         [Expr (JStr (fst opt))])
               (option_list q))]"

definition render_checkbox_option :: "formdata \<Rightarrow> question \<Rightarrow> jsstring \<times> jsstring \<Rightarrow> js_error + node" where
  "render_checkbox_option fd q opt =
     (case optional_includes (get fd (String (qid q))) (snd opt) of
        Inl e \<Rightarrow> Inl e
      | Inr included \<Rightarrow>
          Inr (Element ''label'' [(''key'', PValue (JStr (snd opt)))]
                 [Element ''input''
                    [(''type'', PValue (JStr (js ''checkbox''))),
                     (''name'', PValue (JStr (String (qid q) @ js ''-'' @ snd opt))),
                     (''value'', PValue (JStr (snd opt))),
                     (''checked'', PValue (js_or included (JBool False))),
                     (''onChange'', PHandler (HandleCheckboxChange (qid q)))] [],
                  Expr (JStr (fst opt))]))"

definition render_checkbox :: "formdata \<Rightarrow> question \<Rightarrow> js_error + node" where
  "render_checkbox fd q =
     (case collect (map (render_checkbox_option fd q) (option_list q)) of
        Inl e \<Rightarrow> Inl e
      | Inr boxes \<Rightarrow>
          Inr (Element ''div'' [(''key'', PNum (qid q))]
                 (Element ''span'' [] [Expr (JStr (label q))] # boxes)))"

definition render_file :: "formdata \<Rightarrow> question \<Rightarrow> node" where
  "render_file fd q =
     Element ''label'' [(''key'', PNum (qid q))]
       [Element ''span'' [] [Expr (JStr (label q))],
        Element ''input''
          [(''type'', PValue (JStr (js ''file''))),
           (''name'', PValue (JStr (String (qid q)))),
           (''onChange'', PHandler (HandleFileChange (qid q)))] [],
        (if truthy (get fd (String (qid q)))
         then Element ''p'' [] [Text ''Uploaded: '', Expr (name_or_value (get fd (String (qid q))))]
         else Expr (get fd (String (qid q))))]"

definition render_textarea :: "formdata \<Rightarrow> question \<Rightarrow> node" where
  "render_textarea fd q =
     Element ''label'' [(''key'', PNum (qid q))]
       [Element ''span'' [] [Expr (JStr (label q))],
        Element ''textarea''
          [(''name'', PValue (JStr (String (qid q)))),
           (''value'', PValue (js_or (get fd (String (qid q))) (JStr []))),
           (''onChange'', PHandler HandleChange)] []]"

definition render_file_photo :: "formdata \<Rightarrow> question \<Rightarrow> node" where
  "render_file_photo fd q =
     Element ''div'' [(''key'', PNum (qid q))]
       [Element ''label'' [] [Expr (JStr (label q))],
        Element ''div'' []
          [Element ''label'' []
             [Element ''input''
                [(''type'', PValue (JStr (js ''file''))),
                 (''accept'', PValue (JStr (js ''image/*''))),
                 (''onChange'', PHandler (HandleFilePhotoChange (qid q)))] [],
              (if truthy (get fd (String (qid q)))
               then Element ''Image''
                      [(''src'', (case get fd (String (qid q)) of JFile f \<Rightarrow> PObjectURL f | v \<Rightarrow> PValue v)),
                       (''alt'', PValue (JStr (js ''Profile Preview'')))] []
               else Element ''Image''
                      [(''src'', PValue (JStr (js ''/dummy.png''))),
                       (''alt'', PValue (JStr (js ''Upload Placeholder'')))] [])],
           Element ''p'' [] [Text ''Click to upload'']]]"

text \<open>
  The filter of lines 186-191: the questions whose parent is the question \<open>q\<close> and whose
  condition value is the current answer of \<open>q\<close>.
\<close>

definition subQuestions :: "question list \<Rightarrow> formdata \<Rightarrow> question \<Rightarrow> question list" where
  "subQuestions qs fd q =
     filter (\<lambda>subQuestion. parent_question_id subQuestion = Some (qid q) \<and>
               strict_eq (get fd (String (qid q))) (condition_value subQuestion)) qs"

text \<open>
  \<^verbatim>\<open>renderQuestion\<close>: the elements it returns (none for \<^verbatim>\<open>null\<close>) or the exception it
  throws. The recursion through sub-questions need not end when a question is its own
  ancestor; \<open>depth\<close> is the number of nested calls the call stack still has room for,
  and running out of it is the \<^verbatim>\<open>RangeError\<close> of the engine.
\<close>

fun renderQuestion :: "nat \<Rightarrow> question list \<Rightarrow> formdata \<Rightarrow> question \<Rightarrow> js_error + node list" where
  "renderQuestion 0 qs fd q = Inl RangeError"
| "renderQuestion (Suc depth) qs fd q =
     (if \<not> shouldDisplay fd q then Inr []
      else if qtype q = js ''text'' then Inr [render_text fd q]
      else if qtype q = js ''radio'' then
        (case collect (map (renderQuestion depth qs fd) (subQuestions qs fd q)) of
           Inl e \<Rightarrow> Inl e
         | Inr subs \<Rightarrow>
             Inr [Element ''div'' [(''key'', PNum (qid q))]
                    (Element ''span'' [] [Expr (JStr (label q))]
                     # map (render_radio_option fd q) (option_list q)
                     @ map (\<lambda>(subQuestion, rendered). Element ''div'' [(''key'', PNum (qid subQuestion))] rendered)
                         (zip (subQuestions qs fd q) subs))])
      else if qtype q = js ''select'' then Inr [render_select fd q]
      else if qtype q = js ''checkbox'' then
        (case render_checkbox fd q of Inl e \<Rightarrow> Inl e | Inr n \<Rightarrow> Inr [n])
      else if qtype q = js ''file'' then Inr [render_file fd q]
      else if qtype q = js ''textarea'' then Inr [render_textarea fd q]
      else if qtype q = js ''file-photo'' then Inr [render_file_photo fd q]
      else Inr [])"

subsection \<open>Grouping by section and subsection (lines 485-492)\<close>

definition section_name :: "question \<Rightarrow> jsstring" where
  "section_name q = (case qsection q of None \<Rightarrow> js ''General'' | Some s \<Rightarrow> if s \<noteq> [] then s else js ''General'')"

definition subsection_name :: "question \<Rightarrow> jsstring" where
  "subsection_name q =
     (case qsubsection q of None \<Rightarrow> js ''No Subsection'' | Some s \<Rightarrow> if s \<noteq> [] then s else js ''No Subsection'')"

text \<open>
  \<open>modify k d f\<close> applies \<open>f\<close> to the property \<open>k\<close> of an object, created with the value
  \<open>d\<close> first when the object has none (\<^verbatim>\<open>if (!acc[k]) acc[k] = d\<close>; a group is never
  falsy).
\<close>

definition modify :: "jsstring \<Rightarrow> 'a \<Rightarrow> ('a \<Rightarrow> 'a) \<Rightarrow> 'a object \<Rightarrow> 'a object" where
  "modify k d f obj = assign k (f (case map_of obj k of None \<Rightarrow> d | Some v \<Rightarrow> v)) obj"

definition groupedQuestions :: "question list \<Rightarrow> question list object object" where
  "groupedQuestions qs =
     foldl (\<lambda>acc question.
              modify (section_name question) []
                (modify (subsection_name question) [] (\<lambda>group. group @ [question])) acc)
       [] qs"

text \<open>
  The properties every object inherits from \<^verbatim>\<open>Object.prototype\<close>. A lookup
  \<^verbatim>\<open>acc[section]\<close> under one of these names finds the inherited property instead of a
  group; a form with such a section or subsection name is outside the model of the
  rendered tree. What the grouping does for it is followed in the section on inherited
  properties.
\<close>

definition inherited_names :: "jsstring list" where
  "inherited_names =
     map js [''constructor'', ''__defineGetter__'', ''__defineSetter__'', ''hasOwnProperty'',
             ''__lookupGetter__'', ''__lookupSetter__'', ''isPrototypeOf'', ''propertyIsEnumerable'',
             ''toString'', ''valueOf'', ''__proto__'', ''toLocaleString'']"

definition ordinary_names :: "question list \<Rightarrow> bool" where
  "ordinary_names qs =
     list_all (\<lambda>q. \<not> List.member inherited_names (section_name q) \<and>
                    \<not> List.member inherited_names (subsection_name q)) qs"

subsection \<open>The component's markup (lines 496-600)\<close>

text \<open>
  The truth value of \<^verbatim>\<open>collapsedSections[key]\<close>: the stored flag, and for a key without
  a flag whether the key names an inherited property (which is truthy).
\<close>

definition collapsed :: "bool object \<Rightarrow> jsstring \<Rightarrow> bool" where
  "collapsed flags key = (case map_of flags key of None \<Rightarrow> List.member inherited_names key | Some b \<Rightarrow> b)"

definition toggle_button :: "jsstring \<Rightarrow> jsstring \<Rightarrow> node" where
  "toggle_button key title =
     Element ''button''
       [(''type'', PValue (JStr (js ''button''))), (''onClick'', PHandler (ToggleCollapse key))]
       [Expr (JStr title)]"

text \<open>\<^verbatim>\<open>questions.filter((question) => !question.parent_question_id)\<close>.\<close>

definition top_level :: "question list \<Rightarrow> question list" where
  "top_level qs = filter (\<lambda>question. \<not> truthy_number (parent_question_id question)) qs"

definition render_subsection :: "nat \<Rightarrow> state \<Rightarrow> jsstring \<Rightarrow> jsstring \<times> question list \<Rightarrow> js_error + node list" where
  "render_subsection depth st section entry =
     (if fst entry = js ''No Subsection''
      then
        (case collect (map (renderQuestion depth (questions st) (formData st)) (top_level (snd entry))) of
           Inl e \<Rightarrow> Inl e
         | Inr rendered \<Rightarrow>
             Inr (map (\<lambda>(question, r). Element ''div'' [(''key'', PNum (qid question))] r)
                    (zip (top_level (snd entry)) rendered)))
      else if collapsed (collapsedSections st) (section @ js ''-'' @ fst entry)
      then
        Inr [Element ''fieldset'' [(''key'', PValue (JStr (fst entry)))]
               [Element ''legend'' [] [toggle_button (section @ js ''-'' @ fst entry) (fst entry)],
                Expr (JBool False)]]
      else
        (case collect (map (renderQuestion depth (questions st) (formData st)) (top_level (snd entry))) of
           Inl e \<Rightarrow> Inl e
         | Inr rendered \<Rightarrow>
             Inr [Element ''fieldset'' [(''key'', PValue (JStr (fst entry)))]
                    (Element ''legend'' [] [toggle_button (section @ js ''-'' @ fst entry) (fst entry)]
                     # concat rendered)]))"

definition render_section :: "nat \<Rightarrow> state \<Rightarrow> jsstring \<times> (jsstring \<times> question list) list \<Rightarrow> js_error + node" where
  "render_section depth st entry =
     (if collapsed (collapsedSections st) (fst entry)
      then
        Inr (Element ''fieldset'' [(''key'', PValue (JStr (fst entry)))]
               [Element ''legend'' [] [toggle_button (fst entry) (fst entry)], Expr (JBool False)])
      else
        (case collect (map (render_subsection depth st (fst entry)) (entries (snd entry))) of
           Inl e \<Rightarrow> Inl e
         | Inr rendered \<Rightarrow>
             Inr (Element ''fieldset'' [(''key'', PValue (JStr (fst entry)))]
                    (Element ''legend'' [] [toggle_button (fst entry) (fst entry)] # concat rendered))))"

definition submit_button :: node where
  "submit_button = Element ''button'' [(''type'', PValue (JStr (js ''button'')))] [Text ''Submit'']"

definition render_form :: "nat \<Rightarrow> state \<Rightarrow> js_error + node" where
  "render_form depth st =
     (if loading st
      then
        Inr (Element ''form'' [(''encType'', PValue (JStr (js ''multipart/form-data'')))]
               [Element ''p'' [] [Text ''Loading...''], submit_button])
      else
        (case collect (map (render_section depth st) (entries (groupedQuestions (questions st)))) of
           Inl e \<Rightarrow> Inl e
         | Inr sections \<Rightarrow>
             Inr (Element ''form'' [(''encType'', PValue (JStr (js ''multipart/form-data'')))]
                    (sections @ [submit_button]))))"

definition page :: "node \<Rightarrow> node" where
  "page body =
     Element ''div'' []
       [Element ''Image'' [(''alt'', PValue (JStr (js ''logo''))), (''src'', PValue (JStr (js ''/Fuze.png'')))] [],
        Element ''div'' []
          [Element ''Image''
             [(''src'', PValue (JStr (js ''/Fuze img.jpeg''))),
              (''alt'', PValue (JStr (js ''Your dream job is just a click away!'')))] []],
        Element ''div'' []
          [Element ''Image''
             [(''src'', PValue (JStr (js ''/Fuze img.jpeg''))),
              (''alt'', PValue (JStr (js ''Your dream job is just a click away!'')))] []],
        body]"

text \<open>
  The value the component returns for a state: the tree, the exception thrown while
  building it, or \<open>Unmodelled\<close> for a form with an inherited name.
\<close>

definition render :: "nat \<Rightarrow> state \<Rightarrow> node outcome" where
  "render depth st =
     (if \<not> ordinary_names (questions st) then Unmodelled
      else if submitted st
      then Returns (page (Element ''h1'' [] [Text ''Thank you for submitting!'']))
      else
        (case render_form depth st of
           Inl e \<Rightarrow> Throws e
         | Inr form \<Rightarrow> Returns (page form)))"

subsection \<open>The effect that loads the questions (lines 39-64)\<close>

text \<open>
  The template literal \<^verbatim>\<open>${q.section}-${q.subsection}\<close> of line 57 uses the section as
  fetched: an absent section is the \<^verbatim>\<open>null\<close> of the database and prints as such. The
  assignment of line 55 creates the property, except under the name \<^verbatim>\<open>__proto__\<close>: that
  assignment calls the inherited setter, which ignores a boolean.
\<close>

definition initial_flags :: "bool object \<Rightarrow> question \<Rightarrow> bool object" where
  "initial_flags flags q =
     (let flags' = (case qsection q of
                      None \<Rightarrow> flags
                    | Some s \<Rightarrow> if s \<noteq> [] \<and> s \<noteq> js ''__proto__'' then assign s False flags else flags)
      in case qsubsection q of
           None \<Rightarrow> flags'
         | Some sub \<Rightarrow>
             if sub \<noteq> []
             then assign ((case qsection q of None \<Rightarrow> js ''null'' | Some s \<Rightarrow> s) @ js ''-'' @ sub) False flags'
             else flags')"

definition fetchQuestions :: "question list response \<Rightarrow> state \<Rightarrow> state \<times> effect list" where
  "fetchQuestions r st =
     (st\<lparr>questions := (case data r of None \<Rightarrow> [] | Some qs \<Rightarrow> qs),
         collapsedSections := (case data r of None \<Rightarrow> [] | Some qs \<Rightarrow> foldl initial_flags [] qs),
         loading := False\<rparr>,
      (case error r of None \<Rightarrow> [] | Some e \<Rightarrow> [ConsoleError ''Error fetching questions:'']))"

definition initial_state :: state where
  "initial_state = \<lparr>questions = [], formData = [], loading = True, submitted = False,
     collapsedSections = []\<rparr>"

section \<open>Events on the rendered form\<close>

text \<open>\<^verbatim>\<open>toggleCollapse\<close> (lines 390-395): the key gets the negation of its current truth value.\<close>

definition toggleCollapse :: "jsstring \<Rightarrow> bool object \<Rightarrow> bool object" where
  "toggleCollapse key prevState = assign key (\<not> collapsed prevState key) prevState"

text \<open>The handlers an element binds, with the event each is bound to.\<close>

fun bindings :: "(string \<times> prop_value) list \<Rightarrow> (string \<times> handler) list" where
  "bindings [] = []"
| "bindings ((a, PHandler h) # ps) = (a, h) # bindings ps"
| "bindings (p # ps) = bindings ps"

definition handlers_for :: "string \<Rightarrow> node \<Rightarrow> handler list" where
  "handlers_for ev n =
     (case n of
        Element tag props kids \<Rightarrow> map snd (filter (\<lambda>b. fst b = ev) (bindings props))
      | _ \<Rightarrow> [])"

text \<open>
  The elements from the root of a tree down to the element at a path (the positions of
  the children to descend into), if the path leads to a node.
\<close>

fun chain :: "nat list \<Rightarrow> node \<Rightarrow> node list option" where
  "chain [] n = Some [n]"
| "chain (i # path) n =
     (case n of
        Element tag props kids \<Rightarrow>
          if i < length kids then map_option ((#) n) (chain path (kids ! i)) else None
      | _ \<Rightarrow> None)"

text \<open>
  An event bubbles: React calls the handlers bound to it on the target first and then
  on each ancestor up to the root.
\<close>

definition bubbling :: "string \<Rightarrow> node list \<Rightarrow> handler list" where
  "bubbling ev ch = concat (map (handlers_for ev) (rev ch))"

text \<open>
  What the user did to the target: a click, or a change that leaves the target with a
  value, a checked flag and possibly a chosen file. The model lets a change carry any
  of these, which is more than a browser delivers for a given control. Only form
  controls are the target of a change.
\<close>

datatype event = Click | Change jsstring bool "jsfile option"

definition changeable :: "node \<Rightarrow> bool" where
  "changeable n =
     (case n of
        Element tag props kids \<Rightarrow> tag = ''input'' \<or> tag = ''select'' \<or> tag = ''textarea''
      | _ \<Rightarrow> False)"

definition prop_string :: "(string \<times> prop_value) list \<Rightarrow> string \<Rightarrow> jsstring" where
  "prop_string props a = (case map_of props a of Some (PValue (JStr s)) \<Rightarrow> s | _ \<Rightarrow> [])"

text \<open>What \<^verbatim>\<open>handleChange\<close> reads from \<^verbatim>\<open>e.target\<close> when the target is the given element.\<close>

definition event_target :: "node \<Rightarrow> jsstring \<Rightarrow> bool \<Rightarrow> target" where
  "event_target n v c =
     (case n of
        Element tag props kids \<Rightarrow>
          \<lparr>is_input = (tag = ''input''),
           target_name = prop_string props ''name'',
           target_type = (if tag = ''input'' then prop_string props ''type''
                          else if tag = ''select'' then js ''select-one'' else js ''textarea''),
           target_value = v,
           target_checked = c\<rparr>
      | _ \<Rightarrow> \<lparr>is_input = False, target_name = [], target_type = [], target_value = v, target_checked = c\<rparr>)"

text \<open>The remote collaborators of the three pipelines and the form identifier of the page.\<close>

record remote =
  submit_remote :: submit_env
  progress_remote :: "row list \<Rightarrow> err option"
  search_remote :: search_env
  formId :: int

text \<open>Calling a bound function with the event.\<close>

definition run_handler ::
  "remote \<Rightarrow> handler \<Rightarrow> target \<Rightarrow> jsfile option \<Rightarrow> state \<Rightarrow> (state \<times> effect list) outcome" where
  "run_handler r h t chosen st =
     (case h of
        HandleChange \<Rightarrow> Returns (st\<lparr>formData := handleChange t (formData st)\<rparr>, [])
      | HandleCheckboxChange questionId \<Rightarrow>
          (case handleCheckboxChange (target_value t) (target_checked t) questionId (formData st) of
             Inl e \<Rightarrow> Throws e
           | Inr fd \<Rightarrow> Returns (st\<lparr>formData := fd\<rparr>, []))
      | HandleFileChange questionId \<Rightarrow>
          Returns (st\<lparr>formData := handleFileChange chosen questionId (formData st)\<rparr>, [])
      | HandleFilePhotoChange questionId \<Rightarrow>
          Returns (st\<lparr>formData := handleFilePhotoChange chosen questionId (formData st)\<rparr>, [])
      | ToggleCollapse key \<Rightarrow>
          Returns (st\<lparr>collapsedSections := toggleCollapse key (collapsedSections st)\<rparr>, [])
      | HandleSubmit \<Rightarrow> Returns (handleSubmit (submit_remote r) st)
      | HandleSaveProgress \<Rightarrow> Returns (handleSaveProgress (formId r) (progress_remote r) st)
      | HandleSearch \<Rightarrow> handleSearch (search_remote r) st)"

fun run_handlers ::
  "remote \<Rightarrow> handler list \<Rightarrow> target \<Rightarrow> jsfile option \<Rightarrow> state \<Rightarrow> (state \<times> effect list) outcome" where
  "run_handlers r [] t chosen st = Returns (st, [])"
| "run_handlers r (h # hs) t chosen st =
     (case run_handler r h t chosen st of
        Returns (st', effects) \<Rightarrow>
          (case run_handlers r hs t chosen st' of
             Returns (st'', effects') \<Rightarrow> Returns (st'', effects @ effects')
           | Throws e \<Rightarrow> Throws e
           | Unmodelled \<Rightarrow> Unmodelled)
      | Throws e \<Rightarrow> Throws e
      | Unmodelled \<Rightarrow> Unmodelled)"

text \<open>
  The default action of a click: a button whose \<^verbatim>\<open>type\<close> is \<^verbatim>\<open>submit\<close> or missing (and a
  submit input) submits the form it stands in; a button of type \<^verbatim>\<open>button\<close> does nothing.
\<close>

definition submits :: "node \<Rightarrow> bool" where
  "submits n =
     (case n of
        Element tag props kids \<Rightarrow>
          (tag = ''button'' \<and> (map_of props ''type'' = None \<or> prop_string props ''type'' = js ''submit''))
          \<or> (tag = ''input'' \<and> prop_string props ''type'' = js ''submit'')
      | _ \<Rightarrow> False)"

definition is_form :: "node \<Rightarrow> bool" where
  "is_form n = (case n of Element tag props kids \<Rightarrow> tag = ''form'' | _ \<Rightarrow> False)"

text \<open>The chain from the root down to the innermost form, if the target stands in one.\<close>

fun form_chain :: "node list \<Rightarrow> node list option" where
  "form_chain [] = None"
| "form_chain (n # ns) =
     (case form_chain ns of
        Some inner \<Rightarrow> Some (n # inner)
      | None \<Rightarrow> if is_form n then Some [n] else None)"

text \<open>
  Dispatching an event to the target at the end of a chain: the bound handlers run, and
  a click on a submitting control then raises the submit event on its form. Without a
  submit handler that prevents it (\<^verbatim>\<open>handleSubmit\<close> does) the browser submits the form
  itself and loads the response, which starts the component afresh.
\<close>

definition dispatch :: "remote \<Rightarrow> node list \<Rightarrow> event \<Rightarrow> state \<Rightarrow> (state \<times> effect list) outcome" where
  "dispatch r ch ev st =
     (case ev of
        Change v c chosen \<Rightarrow>
          if changeable (last ch)
          then run_handlers r (bubbling ''onChange'' ch) (event_target (last ch) v c) chosen st
          else Returns (st, [])
      | Click \<Rightarrow>
          (case run_handlers r (bubbling ''onClick'' ch) (event_target (last ch) [] False) None st of
             Returns (st', effects) \<Rightarrow>
               (if submits (last ch)
                then
                  (case form_chain ch of
                     None \<Rightarrow> Returns (st', effects)
                   | Some fch \<Rightarrow>
                       (case run_handlers r (bubbling ''onSubmit'' fch) (event_target (last fch) [] False) None st' of
                          Returns (st'', effects') \<Rightarrow>
                            if List.member (bubbling ''onSubmit'' fch) HandleSubmit
                            then Returns (st'', effects @ effects')
                            else Returns (initial_state, effects @ effects' @ [NativeSubmit])
                        | Throws e \<Rightarrow> Throws e
                        | Unmodelled \<Rightarrow> Unmodelled))
                else Returns (st', effects))
           | Throws e \<Rightarrow> Throws e
           | Unmodelled \<Rightarrow> Unmodelled))"

text \<open>
  One user event on the rendered form: the component is rendered for the current state,
  the event is dispatched to the element at the path, and the handlers' result is the
  next state.
\<close>

definition ui_event :: "nat \<Rightarrow> remote \<Rightarrow> nat list \<Rightarrow> event \<Rightarrow> state \<Rightarrow> (state \<times> effect list) outcome" where
  "ui_event depth r path ev st =
     (case render depth st of
        Returns tree \<Rightarrow>
          (case chain path tree of
             Some ch \<Rightarrow> dispatch r ch ev st
           | None \<Rightarrow> Returns (st, []))
      | Throws e \<Rightarrow> Throws e
      | Unmodelled \<Rightarrow> Unmodelled)"

section \<open>Predicates on rendered trees\<close>

text \<open>A property of the tag, props and children of every element of a tree.\<close>

fun all_elements :: "(string \<Rightarrow> (string \<times> prop_value) list \<Rightarrow> node list \<Rightarrow> bool) \<Rightarrow> node \<Rightarrow> bool" where
  "all_elements P (Text t) = True"
| "all_elements P (Expr v) = True"
| "all_elements P (Element tag props kids) = (P tag props kids \<and> list_all (all_elements P) kids)"

text \<open>The numeric keys (\<^verbatim>\<open>key={id}\<close>) of the elements of a tree.\<close>

fun element_keys :: "node \<Rightarrow> int list" where
  "element_keys (Text t) = []"
| "element_keys (Expr v) = []"
| "element_keys (Element tag props kids) =
     (case map_of props ''key'' of Some (PNum k) \<Rightarrow> [k] | _ \<Rightarrow> []) @ concat (map element_keys kids)"

definition is_element :: "node \<Rightarrow> bool" where
  "is_element n = (case n of Element tag props kids \<Rightarrow> True | _ \<Rightarrow> False)"

text \<open>A child that neither binds a handler nor has an element below it: text, or an option.\<close>

definition leafish :: "node \<Rightarrow> bool" where
  "leafish n =
     (case n of
        Element tag props kids \<Rightarrow> tag = ''option'' \<and> bindings props = [] \<and> list_all (\<lambda>k. \<not> is_element k) kids
      | _ \<Rightarrow> True)"

text \<open>
  An identifier under which \<^verbatim>\<open>renderQuestion\<close> can be reached: that of a fetched
  question without a (truthy) parent identifier, or with the identifier of a fetched
  question as its parent identifier.
\<close>

definition renderable :: "question list \<Rightarrow> int \<Rightarrow> bool" where
  "renderable qs k =
     (\<exists>q \<in> set qs. qid q = k \<and>
        (\<not> truthy_number (parent_question_id q) \<or>
         (\<exists>p \<in> set qs. parent_question_id q = Some (qid p))))"

text \<open>
  What every element of the rendered form looks like: a numeric key is the identifier
  of a renderable question; the element binds nothing, or it binds exactly one of the
  four change handlers (\<^verbatim>\<open>handleChange\<close> together with the identifier of a fetched
  question as its name) or \<^verbatim>\<open>toggleCollapse\<close> to a click, and then has only text and
  options below it.
\<close>

definition shape :: "question list \<Rightarrow> string \<Rightarrow> (string \<times> prop_value) list \<Rightarrow> node list \<Rightarrow> bool" where
  "shape qs tag props kids =
     ((case map_of props ''key'' of Some (PNum k) \<Rightarrow> renderable qs k | _ \<Rightarrow> True) \<and>
      (bindings props = [] \<or>
       (list_all leafish kids \<and>
        ((\<exists>q \<in> set qs. bindings props = [(''onChange'', HandleChange)] \<and>
                         prop_string props ''name'' = String (qid q)) \<or>
         (\<exists>q \<in> set qs. bindings props = [(''onChange'', HandleCheckboxChange (qid q))]) \<or>
         (\<exists>q \<in> set qs. bindings props = [(''onChange'', HandleFileChange (qid q))]) \<or>
         (\<exists>q \<in> set qs. bindings props = [(''onChange'', HandleFilePhotoChange (qid q))]) \<or>
         (\<exists>key. bindings props = [(''onClick'', ToggleCollapse key)])))))"

text \<open>The Answer State holds entries under decimal numerals only.\<close>

definition numeric_keys :: "formdata \<Rightarrow> bool" where
  "numeric_keys fd = (\<forall>k \<in> fst ` set fd. \<exists>n. k = String n)"

text \<open>An element other than an option: what a click or a change can be aimed at.\<close>

definition solid :: "node \<Rightarrow> bool" where
  "solid n = (case n of Element tag props kids \<Rightarrow> tag \<noteq> ''option'' | _ \<Rightarrow> False)"

text \<open>The handlers bound anywhere in a tree, to whatever event.\<close>

fun bound_handlers :: "node \<Rightarrow> handler list" where
  "bound_handlers (Text t) = []"
| "bound_handlers (Expr v) = []"
| "bound_handlers (Element tag props kids) = map snd (bindings props) @ concat (map bound_handlers kids)"

text \<open>Every group of a grouping holds questions of a given set only.\<close>

definition groups_within :: "question list object object \<Rightarrow> question set \<Rightarrow> bool" where
  "groups_within acc S = (\<forall>sec \<in> set acc. \<forall>sub \<in> set (snd sec). set (snd sub) \<subseteq> S)"

text \<open>A handler that any element of the rendered form can run for a target.\<close>

definition form_handler :: "handler \<Rightarrow> target \<Rightarrow> bool" where
  "form_handler h t =
     (case h of
        HandleChange \<Rightarrow> \<exists>n. target_name t = String n
      | HandleCheckboxChange questionId \<Rightarrow> True
      | HandleFileChange questionId \<Rightarrow> True
      | HandleFilePhotoChange questionId \<Rightarrow> True
      | ToggleCollapse key \<Rightarrow> True
      | _ \<Rightarrow> False)"

text \<open>The numeric keys of what the component renders for a state, if it renders.\<close>

definition rendered_keys :: "nat \<Rightarrow> state \<Rightarrow> int list option" where
  "rendered_keys depth st = (case render depth st of Returns tree \<Rightarrow> Some (element_keys tree) | _ \<Rightarrow> None)"

section \<open>Properties inherited from \<^verbatim>\<open>Object.prototype\<close>\<close>

text \<open>
  The accumulator of \<^verbatim>\<open>groupedQuestions\<close> and the Answer State are plain objects, so a
  read \<^verbatim>\<open>obj[k]\<close> that finds no property \<open>k\<close> on the object itself goes on to
  \<^verbatim>\<open>Object.prototype\<close>, and lines 488-490 write to whatever object the read of line 488
  yields. The definitions above take \<^verbatim>\<open>Object.prototype\<close> as the engine provides it.
  This section keeps track of what the page adds to it.

  The only such writes of the component are those of lines 489-490, and what they store
  is an array of questions. A world is the state of the component together with the
  properties added to \<^verbatim>\<open>Object.prototype\<close> since the page was loaded.
\<close>

record world =
  component :: state
  prototype :: "question list object"

subsection \<open>The grouping (lines 485-492) with its writes\<close>

text \<open>
  Lines 489-490 for a question whose section is a property of the accumulator itself,
  with the value \<open>subsections\<close> (for a section just created, the empty object):

    \<^item> a subsection the object has: the question is pushed onto its group;
    \<^item> a subsection named like a built-in property of \<^verbatim>\<open>Object.prototype\<close>: the read
      yields that property (a function, or \<^verbatim>\<open>Object.prototype\<close> itself for \<^verbatim>\<open>__proto__\<close>),
      which is truthy and has no method \<^verbatim>\<open>push\<close>, so line 490 throws;
    \<^item> a subsection added to \<^verbatim>\<open>Object.prototype\<close> before: the read yields the array
      stored there, and the question is pushed onto that array;
    \<^item> any other subsection: the group is created with the question in it.
\<close>

definition into_group ::
  "question list object object \<Rightarrow> question list object \<Rightarrow> jsstring \<Rightarrow> question list object \<Rightarrow> jsstring \<Rightarrow>
   question \<Rightarrow> (question list object object \<times> question list object) outcome" where
  "into_group acc proto section subsections subsection question =
     (case map_of subsections subsection of
        Some found \<Rightarrow>
          Returns (assign section (assign subsection (found @ [question]) subsections) acc, proto)
      | None \<Rightarrow>
          if List.member inherited_names subsection then Throws TypeError
          else
            (case map_of proto subsection of
               Some found \<Rightarrow>
                 Returns (assign section subsections acc, assign subsection (found @ [question]) proto)
             | None \<Rightarrow>
                 Returns (assign section (assign subsection [question] subsections) acc, proto)))"

text \<open>
  Lines 489-490 for the section \<^verbatim>\<open>__proto__\<close>, where \<^verbatim>\<open>acc[section]\<close> is
  \<^verbatim>\<open>Object.prototype\<close>: the group is looked up, created and extended there. Under the
  name of a built-in function line 490 throws as above; under \<^verbatim>\<open>__proto__\<close> the read
  yields \<^verbatim>\<open>null\<close> and the assignment of line 489 throws, because the prototype of
  \<^verbatim>\<open>Object.prototype\<close> cannot be changed.
\<close>

definition into_prototype ::
  "question list object object \<Rightarrow> question list object \<Rightarrow> jsstring \<Rightarrow> question \<Rightarrow>
   (question list object object \<times> question list object) outcome" where
  "into_prototype acc proto subsection question =
     (if List.member inherited_names subsection then Throws TypeError
      else
        (case map_of proto subsection of
           Some found \<Rightarrow> Returns (acc, assign subsection (found @ [question]) proto)
         | None \<Rightarrow> Returns (acc, assign subsection [question] proto)))"

text \<open>
  The callback of the \<^verbatim>\<open>reduce\<close> for one question. \<^verbatim>\<open>acc[section]\<close> is the property of
  the accumulator when it has one. Otherwise it is \<^verbatim>\<open>Object.prototype\<close> for
  \<^verbatim>\<open>__proto__\<close>, a built-in function for the other built-in names, an array added
  earlier for a name added to \<^verbatim>\<open>Object.prototype\<close>, and undefined for every other name,
  in which case line 488 creates the section. Writing properties to a built-in function
  or to a group array is outside the model.
\<close>

definition group_question ::
  "question list object object \<times> question list object \<Rightarrow> question \<Rightarrow>
   (question list object object \<times> question list object) outcome" where
  "group_question s question =
     (let acc = fst s; proto = snd s;
          section = section_name question;
          subsection = subsection_name question
      in case map_of acc section of
           Some subsections \<Rightarrow> into_group acc proto section subsections subsection question
         | None \<Rightarrow>
             if section = js ''__proto__'' then into_prototype acc proto subsection question
             else if List.member inherited_names section then Unmodelled
             else if map_of proto section \<noteq> None then Unmodelled
             else into_group acc proto section [] subsection question)"

fun grouping ::
  "question list \<Rightarrow> question list object object \<times> question list object \<Rightarrow>
   (question list object object \<times> question list object) outcome" where
  "grouping [] s = Returns s"
| "grouping (question # qs) s =
     (case group_question s question of
        Returns s' \<Rightarrow> grouping qs s'
      | Throws e \<Rightarrow> Throws e
      | Unmodelled \<Rightarrow> Unmodelled)"

text \<open>
  \<^verbatim>\<open>groupedQuestions\<close> as the component computes it on every render, together with the
  properties of \<^verbatim>\<open>Object.prototype\<close> afterwards.
\<close>

definition groupedQuestions_in ::
  "question list object \<Rightarrow> question list \<Rightarrow> (question list object object \<times> question list object) outcome" where
  "groupedQuestions_in proto qs = grouping qs ([], proto)"

subsection \<open>The email guards with inherited properties\<close>

text \<open>
  \<^verbatim>\<open>formData.contactEmail\<close>: the entry of the Answer State, else the array added to
  \<^verbatim>\<open>Object.prototype\<close> under that name, else undefined. An array is truthy.
\<close>

datatype email_value = Stored jsval | Questions "question list"

definition contactEmail :: "question list object \<Rightarrow> formdata \<Rightarrow> email_value" where
  "contactEmail proto fd =
     (case map_of fd (js ''contactEmail'') of
        Some v \<Rightarrow> Stored v
      | None \<Rightarrow>
          (case map_of proto (js ''contactEmail'') of
             Some found \<Rightarrow> Questions found
           | None \<Rightarrow> Stored JUndefined))"

fun truthy_email :: "email_value \<Rightarrow> bool" where
  "truthy_email (Stored v) = truthy v"
| "truthy_email (Questions found) = True"

fun email_cell :: "email_value \<Rightarrow> cell" where
  "email_cell (Stored v) = Val v"
| "email_cell (Questions found) = Inherited found"

text \<open>
  \<^verbatim>\<open>handleSaveProgress\<close> (lines 397-424) in a world. \<^verbatim>\<open>Object.entries\<close> lists the
  properties of the Answer State itself only.
\<close>

definition save_row_in :: "int \<Rightarrow> email_value \<Rightarrow> jsstring \<Rightarrow> jsval \<Rightarrow> row" where
  "save_row_in fid email questionId answer =
     [(''form_id'', Num fid),
      (''contactEmail'', email_cell email),
      (''question_id'', NumberOf questionId),
      (''answer'', Val (encode answer))]"

definition handleSaveProgress_in ::
  "question list object \<Rightarrow> int \<Rightarrow> (row list \<Rightarrow> err option) \<Rightarrow> state \<Rightarrow> state \<times> effect list" where
  "handleSaveProgress_in proto fid upsert_progress st =
     (let email = contactEmail proto (formData st);
          savePayload = map (\<lambda>p. save_row_in fid email (fst p) (snd p)) (entries (formData st))
      in if \<not> truthy_email email
         then (st, [Alert ''Please enter your email before saving progress.''])
         else
           (case upsert_progress savePayload of
              Some e \<Rightarrow>
                (st, [Upsert ''progress'' savePayload ''form_id,contactEmail,question_id'',
                      ConsoleError ''Error saving progress:'',
                      Alert ''Failed to save progress. Please try again.''])
            | None \<Rightarrow>
                (st, [Upsert ''progress'' savePayload ''form_id,contactEmail,question_id'',
                      Alert ''Progress saved successfully!''])))"

text \<open>
  Lines 442-482 of \<^verbatim>\<open>handleSearch\<close>: what follows the organization lookup, given the
  lookup that was issued and its answer.
\<close>

definition resume :: "effect \<Rightarrow> int response \<Rightarrow> search_env \<Rightarrow> state \<Rightarrow> (state \<times> effect list) outcome" where
  "resume lookup org env st =
     (case error org of
        Some orgError \<Rightarrow> Returns (search_failed st [lookup])
      | None \<Rightarrow>
          (case data org of
             None \<Rightarrow>
               Returns (st\<lparr>loading := False\<rparr>, [lookup, Alert ''No organization found for this email.''])
           | Some organizationId \<Rightarrow>
               (let res = awaited (find_responses env organizationId);
                    fetch = Select ''responses'' ''question_id, answer'' ''organization_id'' organizationId
                in case error res of
                     Some resError \<Rightarrow> Returns (search_failed st [lookup, fetch])
                   | None \<Rightarrow>
                       (case data res of
                          None \<Rightarrow> Returns (search_failed st [lookup, fetch])
                        | Some responses \<Rightarrow>
                            if responses = []
                            then Returns (st\<lparr>loading := False\<rparr>,
                                          [lookup, fetch, Alert ''No saved progress found for this email.''])
                            else
                              (case savedData responses [] of
                                 Returns saved \<Rightarrow>
                                   Returns (st\<lparr>formData := spread_merge (formData st) saved, loading := False\<rparr>,
                                            [lookup, fetch])
                               | Throws e \<Rightarrow> Returns (search_failed st [lookup, fetch])
                               | Unmodelled \<Rightarrow> Unmodelled)))))"

text \<open>
  \<^verbatim>\<open>handleSearch\<close> (lines 426-483) in a world. \<open>find_inherited\<close> is what the organizations
  table answers when the value to match is an inherited array of questions.
\<close>

definition handleSearch_in ::
  "question list object \<Rightarrow> (question list \<Rightarrow> int fetched) \<Rightarrow> search_env \<Rightarrow> state \<Rightarrow>
   (state \<times> effect list) outcome" where
  "handleSearch_in proto find_inherited env st =
     (let email = contactEmail proto (formData st)
      in if \<not> truthy_email email
         then Returns (st, [Alert ''Please enter an email to search.''])
         else
           (case email of
              Stored v \<Rightarrow>
                resume (SelectSingle ''organizations'' ''id'' ''contactEmail'' v)
                  (single (find_organizations env v)) env st
            | Questions found \<Rightarrow>
                resume (SelectSingleInherited ''organizations'' ''id'' ''contactEmail'' found)
                  (single (find_inherited found)) env st))"

subsection \<open>The worlds the page can be in\<close>

text \<open>
  One user event in a world. The tree on the screen comes from the latest render, whose
  grouping has run in this world. While \<^verbatim>\<open>Object.prototype\<close> has nothing added, the
  elements and the handlers are those of the sections above, and a native submission
  loads the page afresh. What the elements show and what the bound handlers read once
  \<^verbatim>\<open>Object.prototype\<close> has gained a property is outside the model.
\<close>

definition world_event :: "nat \<Rightarrow> remote \<Rightarrow> nat list \<Rightarrow> event \<Rightarrow> world \<Rightarrow> (world \<times> effect list) outcome" where
  "world_event depth r path ev w =
     (case groupedQuestions_in (prototype w) (questions (component w)) of
        Returns (groups, proto) \<Rightarrow>
          if proto = []
          then
            (case ui_event depth r path ev (component w) of
               Returns (st, effects) \<Rightarrow> Returns (\<lparr>component = st, prototype = []\<rparr>, effects)
             | Throws e \<Rightarrow> Throws e
             | Unmodelled \<Rightarrow> Unmodelled)
          else Unmodelled
      | Throws e \<Rightarrow> Throws e
      | Unmodelled \<Rightarrow> Unmodelled)"

text \<open>
  The worlds reachable when every list of questions that arrives satisfies \<open>admitted\<close>:
  the page starts with the initial state and an untouched \<^verbatim>\<open>Object.prototype\<close>; the
  questions arrive (again whenever the form identifier changes); the component renders,
  which runs the grouping; the user acts on what is rendered; the component is mounted
  afresh in the same page.
\<close>

inductive reachable :: "(question list \<Rightarrow> bool) \<Rightarrow> world \<Rightarrow> bool" for admitted where
  start: "reachable admitted \<lparr>component = initial_state, prototype = []\<rparr>"
| fetched:
    "reachable admitted w \<Longrightarrow>
     admitted (questions (fst (fetchQuestions response (component w)))) \<Longrightarrow>
     reachable admitted (w\<lparr>component := fst (fetchQuestions response (component w))\<rparr>)"
| rendered:
    "reachable admitted w \<Longrightarrow>
     groupedQuestions_in (prototype w) (questions (component w)) = Returns (groups, proto) \<Longrightarrow>
     reachable admitted (w\<lparr>prototype := proto\<rparr>)"
| acted:
    "reachable admitted w \<Longrightarrow>
     world_event depth r path ev w = Returns (w', effects) \<Longrightarrow>
     reachable admitted w'"
| mounted: "reachable admitted w \<Longrightarrow> reachable admitted (w\<lparr>component := initial_state\<rparr>)"

text \<open>
  The lists of questions in which no section is named like a built-in property of
  \<^verbatim>\<open>Object.prototype\<close>, and any list of questions, as the database may hold it.
\<close>

definition ordinary_sections :: "question list \<Rightarrow> bool" where
  "ordinary_sections qs = list_all (\<lambda>q. \<not> List.member inherited_names (section_name q)) qs"

definition any_form :: "question list \<Rightarrow> bool" where
  "any_form qs = True"

section \<open>Concrete inputs used by the witnesses and counterexamples\<close>

text \<open>Scenario A of the specification: a text question 10 and a radio sub-question 11 shown when the answer to 10 is \<^verbatim>\<open>yes\<close>.\<close>

definition scenario_q10 :: question where
  "scenario_q10 = \<lparr>qid = 10, form_id = 1, qsection = None, qsubsection = None, qtype = js ''text'',
     label = js ''Do you agree?'', options = None, parent_question_id = None, condition_value = JNull\<rparr>"

definition scenario_q11 :: question where
  "scenario_q11 = \<lparr>qid = 11, form_id = 1, qsection = None, qsubsection = None, qtype = js ''radio'',
     label = js ''Which one?'', options = Some [(js ''X'', js ''x'')],
     parent_question_id = Some 10, condition_value = JStr (js ''yes'')\<rparr>"

definition storage_ok :: submit_env where
  "storage_ok = \<lparr>upload = (\<lambda>i path f. Response (Some path) None), upsert_responses = (\<lambda>rows. None)\<rparr>"

definition storage_down :: submit_env where
  "storage_down = \<lparr>upload = (\<lambda>i path f. Response None (Some (Err ''upload failed''))),
     upsert_responses = (\<lambda>rows. None)\<rparr>"

definition scenario_fd :: formdata where
  "scenario_fd = [(js ''10'', JStr (js ''no'')), (js ''11'', JStr (js ''x''))]"

definition scenario_state :: state where
  "scenario_state = \<lparr>questions = [scenario_q10, scenario_q11], formData = scenario_fd,
     loading = False, submitted = False, collapsedSections = []\<rparr>"

definition cv_question :: question where
  "cv_question = \<lparr>qid = 7, form_id = 1, qsection = None, qsubsection = None, qtype = js ''file'',
     label = js ''Upload your CV'', options = None, parent_question_id = None, condition_value = JNull\<rparr>"

definition cv_state :: state where
  "cv_state = \<lparr>questions = [scenario_q10, cv_question],
     formData = [(js ''10'', JStr (js ''yes'')), (js ''7'', JFile (File (js ''cv.pdf'') [37, 80, 68, 70]))],
     loading = False, submitted = False, collapsedSections = []\<rparr>"

text \<open>A sub-question whose parent identifier is 0, an identifier no question has.\<close>

definition zero_parent_question :: question where
  "zero_parent_question = \<lparr>qid = 5, form_id = 1, qsection = None, qsubsection = None, qtype = js ''text'',
     label = js ''Details'', options = None, parent_question_id = Some 0, condition_value = JStr (js ''yes'')\<rparr>"

text \<open>Resuming with an email that no organization has.\<close>

definition no_organizations :: search_env where
  "no_organizations = \<lparr>find_organizations = (\<lambda>email. Rows []), find_responses = (\<lambda>org. Rows [])\<rparr>"

definition email_state :: state where
  "email_state = \<lparr>questions = [scenario_q10],
     formData = [(js ''contactEmail'', JStr (js ''nobody@example.org'')), (js ''10'', JStr (js ''yes''))],
     loading = False, submitted = False, collapsedSections = []\<rparr>"

text \<open>
  A loaded form with the one text question 10, the same after the user typed \<^verbatim>\<open>yes\<close>,
  a form with a question whose parent 99 is not among the questions (while the Answer
  State holds the condition value under 99), and a form with the zero-parent question.
\<close>

definition remote_ok :: remote where
  "remote_ok = \<lparr>submit_remote = storage_ok, progress_remote = (\<lambda>rows. None),
     search_remote = no_organizations, formId = 1\<rparr>"

definition tiny_state :: state where
  "tiny_state = \<lparr>questions = [scenario_q10], formData = [], loading = False, submitted = False,
     collapsedSections = []\<rparr>"

definition typed_state :: state where
  "typed_state = \<lparr>questions = [scenario_q10], formData = [(js ''10'', JStr (js ''yes''))], loading = False,
     submitted = False, collapsedSections = []\<rparr>"

definition orphan_question :: question where
  "orphan_question = \<lparr>qid = 12, form_id = 1, qsection = None, qsubsection = None, qtype = js ''text'',
     label = js ''Details'', options = None, parent_question_id = Some 99, condition_value = JStr (js ''yes'')\<rparr>"

definition orphan_state :: state where
  "orphan_state = \<lparr>questions = [scenario_q10, orphan_question], formData = [(js ''99'', JStr (js ''yes''))],
     loading = False, submitted = False, collapsedSections = []\<rparr>"

definition zero_parent_state :: state where
  "zero_parent_state = \<lparr>questions = [zero_parent_question], formData = [], loading = False, submitted = False,
     collapsedSections = []\<rparr>"

text \<open>
  The loaded one-question form and the same after typing, in a page whose
  \<^verbatim>\<open>Object.prototype\<close> is untouched.
\<close>

definition tiny_world :: world where
  "tiny_world = \<lparr>component = tiny_state, prototype = []\<rparr>"

definition typed_world :: world where
  "typed_world = \<lparr>component = typed_state, prototype = []\<rparr>"

text \<open>
  A form whose only question has the section \<^verbatim>\<open>__proto__\<close> and the subsection
  \<^verbatim>\<open>contactEmail\<close>, and the page after this form has arrived and has been rendered: the
  Answer State is empty, and \<^verbatim>\<open>Object.prototype\<close> has the property \<^verbatim>\<open>contactEmail\<close>.
\<close>

definition proto_question :: question where
  "proto_question = \<lparr>qid = 20, form_id = 1, qsection = Some (js ''__proto__''),
     qsubsection = Some (js ''contactEmail''), qtype = js ''text'', label = js ''Email'', options = None,
     parent_question_id = None, condition_value = JNull\<rparr>"

definition inherited_world :: world where
  "inherited_world =
     \<lparr>component = \<lparr>questions = [proto_question], formData = [], loading = False, submitted = False,
        collapsedSections = [(js ''__proto__-contactEmail'', False)]\<rparr>,
      prototype = [(js ''contactEmail'', [proto_question])]\<rparr>"

text \<open>A progress table that accepts every upsert, and an organizations table without a match.\<close>

definition progress_ok :: "row list \<Rightarrow> err option" where
  "progress_ok rows = None"

definition no_match :: "question list \<Rightarrow> int fetched" where
  "no_match found = Rows []"

section \<open>Properties of the model\<close>

subsection \<open>Objects\<close>

lemma map_of_assign: "map_of (assign k v obj) k' = (if k' = k then Some v else map_of obj k')"
  by (induction obj) auto

lemma assign_same: "map_of obj k = Some v \<Longrightarrow> assign k v obj = obj"
  by (induction obj) (auto split: if_splits)

lemma fst_set_assign: "fst ` set (assign k v obj) = insert k (fst ` set obj)"
  by (induction obj) auto

lemma get_assign: "get (assign k v obj) k' = (if k' = k then v else get obj k')"
  by (simp add: get_def map_of_assign)

lemma assign_assign: "assign k v (assign k w obj) = assign k v obj"
  by (induction obj) auto

subsection \<open>The submission pipeline\<close>

lemma String_10: "String 10 = js ''10''"
  by (simp add: String_def digits.simps js_def)

lemma String_11: "String 11 = js ''11''"
  by (simp add: String_def digits.simps js_def)

lemma prepare_question_id:
  "prepare env fd i q = Inr r \<Longrightarrow> map fst r = [''question_id'', ''answer''] \<and> map_of r ''question_id'' = Some (Num (qid q))"
  by (auto simp: prepare_def Let_def split: option.splits)

lemma prepare_no_upload:
  "file_to_upload fd q = None \<Longrightarrow>
   prepare env fd i q = Inr [(''question_id'', Num (qid q)), (''answer'', Val (js_or (get fd (String (qid q))) (JStr [])))]"
  by (simp add: prepare_def)

lemma responsePayload_length:
  "responsePayload env fd i qs = Inr rows \<Longrightarrow> length rows = length qs"
  by (induction qs arbitrary: i rows) (auto split: sum.splits)

lemma responsePayload_nth:
  "responsePayload env fd i qs = Inr rows \<Longrightarrow> k < length qs \<Longrightarrow>
   prepare env fd (i + k) (qs ! k) = Inr (rows ! k)"
proof (induction qs arbitrary: i rows k)
  case Nil
  then show ?case by simp
next
  case (Cons q qs)
  from Cons.prems(1) obtain r rs where r: "prepare env fd i q = Inr r"
    and rs: "responsePayload env fd (Suc i) qs = Inr rs" and rows: "rows = r # rs"
    by (auto split: sum.splits)
  show ?case
  proof (cases k)
    case 0
    with r rows show ?thesis by simp
  next
    case (Suc j)
    with Cons.prems(2) have "j < length qs" by simp
    from Cons.IH [OF rs this] Suc rows show ?thesis by simp
  qed
qed

lemma responsePayload_no_upload:
  "\<forall>q \<in> set qs. file_to_upload fd q = None \<Longrightarrow> \<exists>rows. responsePayload env fd i qs = Inr rows"
proof (induction qs arbitrary: i)
  case Nil
  then show ?case by simp
next
  case (Cons q qs)
  then obtain rs where "responsePayload env fd (Suc i) qs = Inr rs"
    by fastforce
  with Cons.prems show ?case by (simp add: prepare_no_upload)
qed

lemma responsePayload_failure:
  "k < length qs \<Longrightarrow> file_to_upload fd (qs ! k) = Some f \<Longrightarrow>
   error (upload env (i + k) (js ''files/'' @ file_name f) f) = Some e \<Longrightarrow>
   \<exists>e'. responsePayload env fd i qs = Inl e'"
proof (induction qs arbitrary: i k)
  case Nil
  then show ?case by simp
next
  case (Cons q qs)
  show ?case
  proof (cases k)
    case 0
    with Cons.prems show ?thesis by (simp add: prepare_def)
  next
    case (Suc j)
    with Cons.prems have "\<exists>e'. responsePayload env fd (Suc i) qs = Inl e'"
      using Cons.IH [of j "Suc i"] by simp
    then show ?thesis by (auto split: sum.splits)
  qed
qed

lemma uploads_only_upload: "x \<in> set (uploads fd qs) \<Longrightarrow> \<exists>b p f. x = Upload b p f"
  by (induction qs) (auto split: option.splits)

lemma responsePayload_ids:
  "responsePayload env fd i qs = Inr rows \<Longrightarrow>
   map (\<lambda>r. map_of r ''question_id'') rows = map (\<lambda>q. Some (Num (qid q))) qs"
proof (induction qs arbitrary: i rows)
  case Nil
  then show ?case by simp
next
  case (Cons q qs)
  from Cons.prems obtain r rs where r: "prepare env fd i q = Inr r"
    and rs: "responsePayload env fd (Suc i) qs = Inr rs" and rows: "rows = r # rs"
    by (auto split: sum.splits)
  from prepare_question_id [OF r] Cons.IH [OF rs] rows show ?case by simp
qed

lemma count_by_key:
  "map f rows = map g qs \<Longrightarrow> length (filter (\<lambda>r. f r = v) rows) = length (filter (\<lambda>q. g q = v) qs)"
proof (induction rows arbitrary: qs)
  case Nil
  then show ?case by simp
next
  case (Cons r rows)
  then obtain q qs' where "qs = q # qs'" by (cases qs) auto
  with Cons show ?case by auto
qed

lemma distinct_count_one:
  "distinct (map g qs) \<Longrightarrow> q \<in> set qs \<Longrightarrow> length (filter (\<lambda>q'. g q' = g q) qs) = 1"
proof (induction qs)
  case Nil
  then show ?case by simp
next
  case (Cons a qs)
  show ?case
  proof (cases "g a = g q")
    case True
    with Cons.prems have "filter (\<lambda>q'. g q' = g q) qs = []"
      by (auto simp: filter_empty_conv image_iff)
    with True show ?thesis by simp
  next
    case False
    with Cons show ?thesis by auto
  qed
qed

lemma scenario_payload:
  "responsePayload storage_ok scenario_fd 0 [scenario_q10, scenario_q11] =
     Inr [[(''question_id'', Num 10), (''answer'', Val (JStr (js ''no'')))],
          [(''question_id'', Num 11), (''answer'', Val (JStr (js ''x'')))]]"
  by code_simp

lemma strict_eq_JStr: "strict_eq x (JStr v) \<longleftrightarrow> x = JStr v"
  by (cases x) auto

lemma current_values:
  "get fd k = JArr xs \<or> \<not> truthy (get fd k) \<and> xs = [] \<Longrightarrow> js_or (get fd k) (JArr []) = JArr xs"
  by (auto simp: js_or_def)

subsection \<open>The JSON text of an array of strings is read back as written\<close>

lemma hexval_hexdigit_all: "\<forall>d \<in> set [0..<16]. hexval (hexdigit d) = Some d"
  by code_simp

lemma hexval_hexdigit: "d < 16 \<Longrightarrow> hexval (hexdigit d) = Some d"
  using hexval_hexdigit_all by simp

lemma hex_digits_value:
  "((n div 4096 * 16 + n div 256 mod 16) * 16 + n div 16 mod 16) * 16 + n mod 16 = (n::nat)"
proof -
  have a: "n div 256 = n div 16 div 16" by (simp add: div_mult2_eq)
  have b: "n div 4096 = n div 16 div 16 div 16" by (simp add: div_mult2_eq)
  show ?thesis
    unfolding a b by (simp add: algebra_simps mult_div_mod_eq)
qed

lemma of_nat_unat_code_unit: "(of_nat (unat c) :: code_unit) = c"
  by simp

lemma lex_string_hex4:
  "lex_string (0x5C # 0x75 # hex4 c @ rest) = map_option (\<lambda>(s, n). (c # s, n + 6)) (lex_string rest)"
proof -
  have "unat c < 65536" using unsigned_less [of c] by simp
  then have d: "unat c div 4096 < 16" "unat c div 256 mod 16 < 16" "unat c div 16 mod 16 < 16" "unat c mod 16 < 16"
    by simp_all
  have v: "(of_nat (((unat c div 4096 * 16 + unat c div 256 mod 16) * 16 + unat c div 16 mod 16) * 16 + unat c mod 16) :: code_unit) = c"
    by (simp only: hex_digits_value of_nat_unat_code_unit)
  have "lex_string (0x5C # 0x75 # hex4 c @ rest) =
      map_option (\<lambda>(s, n). (of_nat (((unat c div 4096 * 16 + unat c div 256 mod 16) * 16 + unat c div 16 mod 16) * 16 + unat c mod 16) # s, n + 6))
        (lex_string rest)"
    by (simp add: hex4_def hexval_hexdigit d del: of_nat_add of_nat_mult)
  then show ?thesis by (simp only: v)
qed

lemma lex_string_raw:
  "c \<noteq> 0x22 \<Longrightarrow> c \<noteq> 0x5C \<Longrightarrow> \<not> c < 0x20 \<Longrightarrow>
   lex_string (c # rest) = map_option (\<lambda>(s, n). (c # s, n + 1)) (lex_string rest)"
  by simp

lemma lex_string_escape_unit:
  "lex_string (escape_unit c @ rest) =
     map_option (\<lambda>(s, n). (c # s, n + length (escape_unit c))) (lex_string rest)"
proof -
  consider "c = 0x08" | "c = 0x09" | "c = 0x0A" | "c = 0x0C" | "c = 0x0D" | "c = 0x22" | "c = 0x5C"
    | "c \<notin> {0x08, 0x09, 0x0A, 0x0C, 0x0D, 0x22, 0x5C}" "c < 0x20 \<or> is_lead c \<or> is_trail c"
    | "c \<notin> {0x08, 0x09, 0x0A, 0x0C, 0x0D, 0x22, 0x5C}" "\<not> (c < 0x20 \<or> is_lead c \<or> is_trail c)"
    by blast
  then show ?thesis
  proof cases
    case 8
    then have e: "escape_unit c = 0x5C # 0x75 # hex4 c"
      by (simp add: escape_unit_def)
    have l: "length (0x5C # 0x75 # hex4 c) = 6"
      by (simp add: hex4_def)
    show ?thesis
      by (simp only: e append_Cons lex_string_hex4 l)
  next
    case 9
    then have e: "escape_unit c = [c]"
      by (simp add: escape_unit_def)
    from 9 show ?thesis
      by (simp add: e)
  qed (simp_all add: escape_unit_def unescape_def)
qed

lemma is_lead_raw: "is_lead c \<Longrightarrow> c \<noteq> 0x22 \<and> c \<noteq> 0x5C \<and> \<not> c < 0x20"
  by (auto simp: is_lead_def word_le_nat_alt word_less_nat_alt)

lemma is_trail_raw: "is_trail c \<Longrightarrow> c \<noteq> 0x22 \<and> c \<noteq> 0x5C \<and> \<not> c < 0x20"
  by (auto simp: is_trail_def word_le_nat_alt word_less_nat_alt)

lemma lex_string_quote_units:
  "lex_string (quote_units s @ 0x22 # rest) = Some (s, length (quote_units s) + 1)"
proof (induction s rule: quote_units.induct)
  case 1
  show ?case by simp
next
  case (2 c)
  show ?case
    by (simp only: quote_units.simps lex_string_escape_unit) simp
next
  case (3 c d cs)
  show ?case
  proof (cases "is_lead c \<and> is_trail d")
    case True
    with is_lead_raw [of c] is_trail_raw [of d] "3.IH"(1) show ?thesis
      by (simp del: lex_string.simps add: lex_string_raw)
  next
    case False
    with "3.IH"(2) show ?thesis
      by (simp only: quote_units.simps if_False append_assoc lex_string_escape_unit) simp
  qed
qed

lemma lex_quote: "lex_text (quote s @ rest) = cons_token (TString s) (lex_text rest)"
proof -
  have "lex_text (0x22 # quote_units s @ 0x22 # rest) = cons_token (TString s) (lex_text rest)"
    by (simp add: lex_string_quote_units is_whitespace_def del: lex_string.simps)
  then show ?thesis by (simp add: quote_def)
qed

lemma lex_text_join:
  "lex_text rest = Returns ts \<Longrightarrow>
   lex_text (join (js '','') (map quote xs) @ rest) = Returns (string_tokens xs @ ts)"
proof (induction xs rule: string_tokens.induct)
  case 1
  then show ?case by simp
next
  case (2 x)
  then show ?case by (simp add: lex_quote cons_token_def)
next
  case (3 x y ys)
  have c: "lex_text (js '','' @ r) = cons_token Comma (lex_text r)" for r
    by (simp add: js_def is_whitespace_def)
  from 3 show ?case
    by (simp add: lex_quote c cons_token_def)
qed

lemma lex_text_string_array:
  "lex_text (JSON_stringify (JArr (map JStr xs))) = Returns (LBracket # string_tokens xs @ [RBracket])"
proof -
  have r: "lex_text (js '']'') = Returns [RBracket]"
    by (simp add: js_def is_whitespace_def cons_token_def)
  have m: "map JSON_stringify (map JStr xs) = map quote xs"
    by simp
  have "lex_text (js ''['' @ join (js '','') (map quote xs) @ js '']'')
      = cons_token LBracket (lex_text (join (js '','') (map quote xs) @ js '']''))"
    by (simp add: js_def is_whitespace_def)
  also have "\<dots> = Returns (LBracket # string_tokens xs @ [RBracket])"
    by (simp add: lex_text_join [OF r] cons_token_def)
  finally show ?thesis
    by (simp only: JSON_stringify.simps m)
qed

lemma parse_tokens_more_strings:
  "parse_tokens (f # fs, AfterValue) (concat (map (\<lambda>y. [Comma, TString y]) ys) @ ts)
     = parse_tokens ((rev (map JStr ys) @ f) # fs, AfterValue) ts"
  by (induction ys arbitrary: f) (simp_all add: deliver_def)

lemma string_tokens_Cons:
  "string_tokens (x # xs) = TString x # concat (map (\<lambda>y. [Comma, TString y]) xs)"
  by (induction xs arbitrary: x) simp_all

lemma parse_tokens_string_array:
  "parse_tokens ([], AwaitValue) (LBracket # string_tokens xs @ [RBracket])
     = Some ([], Done (JArr (map JStr xs)))"
proof (cases xs)
  case Nil
  then show ?thesis by (simp add: deliver_def)
next
  case (Cons x xs')
  have "parse_tokens ([], AwaitValue) (LBracket # string_tokens (x # xs') @ [RBracket])
      = parse_tokens ([JStr x] # [], AfterValue) (concat (map (\<lambda>y. [Comma, TString y]) xs') @ [RBracket])"
    by (simp add: string_tokens_Cons deliver_def)
  also have "\<dots> = parse_tokens ((rev (map JStr xs') @ [JStr x]) # [], AfterValue) [RBracket]"
    by (rule parse_tokens_more_strings)
  also have "\<dots> = Some ([], Done (JArr (map JStr (x # xs'))))"
    by (simp add: deliver_def rev_map)
  finally show ?thesis using Cons by simp
qed

lemma JSON_parse_stringify_strings:
  "JSON_parse (JSON_stringify (JArr (map JStr xs))) = Returns (JArr (map JStr xs))"
  by (simp add: JSON_parse_def lex_text_string_array parse_tokens_string_array
      del: parse_tokens.simps JSON_stringify.simps)

lemma JSON_stringify_array_starts: "startsWith (JSON_stringify (JArr xs)) 0x5B"
  by (simp add: startsWith_def js_def)

subsection \<open>The organization lookup of the resume operation\<close>

lemma single_never_null_without_error: "\<not> (data (single r) = None \<and> error (single r) = None)"
  by (auto simp: single_def split: fetched.splits list.splits)

lemma single_no_match: "error (single (Rows [])) = Some (Err ''PGRST116'')"
  by (simp add: single_def)

lemma handleSearch_no_match:
  assumes "truthy (get (formData st) (js ''contactEmail''))"
    and "find_organizations env (get (formData st) (js ''contactEmail'')) = Rows []"
  shows "handleSearch env st =
    Returns (search_failed st
      [SelectSingle ''organizations'' ''id'' ''contactEmail'' (get (formData st) (js ''contactEmail''))])"
  using assms by (simp add: handleSearch_def Let_def single_no_match)

section \<open>The claims\<close>

subsection \<open>C2: the visibility test\<close>

text \<open>
  C2 (as amended). The visibility test returns true when the question has no parent
  identifier or when its parent identifier is 0, which \<^verbatim>\<open>!parent_question_id\<close> treats as
  absent. For every other parent identifier \<open>p\<close> it returns true exactly when the Answer
  State entry under \<open>p\<close> is strictly equal (\<^verbatim>\<open>===\<close>) to the condition value; in
  particular an absent parent answer yields hidden whenever the question has a condition
  value.
\<close>

theorem shouldDisplay_cases:
  "(parent_question_id q = None \<or> parent_question_id q = Some 0 \<longrightarrow> shouldDisplay fd q) \<and>
   (\<forall>p. parent_question_id q = Some p \<and> p \<noteq> 0 \<longrightarrow>
      (shouldDisplay fd q \<longleftrightarrow> strict_eq (get fd (String p)) (condition_value q))) \<and>
   (\<forall>p. parent_question_id q = Some p \<and> p \<noteq> 0 \<and> map_of fd (String p) = None \<and>
        condition_value q \<noteq> JUndefined \<longrightarrow> \<not> shouldDisplay fd q)"
  by (auto simp: shouldDisplay_def truthy_number_def get_def split: option.splits elim: strict_eq.elims)

theorem shouldDisplay_cases_witness:
  "shouldDisplay [(js ''10'', JStr (js ''yes''))] scenario_q11 \<and>
   \<not> shouldDisplay [(js ''10'', JStr (js ''no''))] scenario_q11 \<and>
   \<not> shouldDisplay [] scenario_q11 \<and>
   shouldDisplay [] scenario_q10"
  using shouldDisplay_cases [of scenario_q11 "[(js ''10'', JStr (js ''yes''))]"]
    shouldDisplay_cases [of scenario_q11 "[(js ''10'', JStr (js ''no''))]"]
    shouldDisplay_cases [of scenario_q11 "[]"]
    shouldDisplay_cases [of scenario_q10 "[]"]
  by (simp add: scenario_q11_def scenario_q10_def String_10 get_def js_def)

text \<open>
  The claim as stated fails for a parent identifier of 0: the question has a parent
  identifier, the Answer State has no entry for it, the condition value is \<^verbatim>\<open>yes\<close>,
  and the test still returns true.
\<close>

theorem shouldDisplay_parent_zero:
  "parent_question_id zero_parent_question = Some 0 \<and>
   condition_value zero_parent_question = JStr (js ''yes'') \<and>
   get [] (String 0) = JUndefined \<and>
   \<not> strict_eq (get [] (String 0)) (condition_value zero_parent_question) \<and>
   shouldDisplay [] zero_parent_question"
  by (simp add: zero_parent_question_def shouldDisplay_def truthy_number_def get_def)

subsection \<open>C1: which questions contribute a submission record\<close>

text \<open>
  C1 (as amended). Whenever the preparation of the records succeeds, it yields exactly
  one record per fetched question, in fetch order, whether the question is visible or
  not: the record at position \<open>k\<close> carries the identifier of the question at position
  \<open>k\<close>, and for a question that needs no upload its answer is the Answer State entry
  (the empty string when the entry is absent or falsy). With pairwise distinct
  identifiers every fetched question has exactly one record.
\<close>

theorem submission_record_per_question:
  assumes "responsePayload env fd i qs = Inr rows"
  shows "length rows = length qs \<and>
    (\<forall>k < length qs.
       map_of (rows ! k) ''question_id'' = Some (Num (qid (qs ! k))) \<and>
       (file_to_upload fd (qs ! k) = None \<longrightarrow>
          map_of (rows ! k) ''answer'' = Some (Val (js_or (get fd (String (qid (qs ! k)))) (JStr []))))) \<and>
    (distinct (map qid qs) \<longrightarrow>
       (\<forall>q \<in> set qs. length (filter (\<lambda>r. map_of r ''question_id'' = Some (Num (qid q))) rows) = 1))"
proof (intro conjI allI impI ballI)
  show "length rows = length qs"
    using assms by (rule responsePayload_length)
next
  fix k assume k: "k < length qs"
  from responsePayload_nth [OF assms k] show "map_of (rows ! k) ''question_id'' = Some (Num (qid (qs ! k)))"
    by (simp add: prepare_question_id)
next
  fix k assume k: "k < length qs" and "file_to_upload fd (qs ! k) = None"
  with responsePayload_nth [OF assms k]
  have "rows ! k = [(''question_id'', Num (qid (qs ! k))),
      (''answer'', Val (js_or (get fd (String (qid (qs ! k)))) (JStr [])))]"
    by (simp add: prepare_no_upload)
  then show "map_of (rows ! k) ''answer'' = Some (Val (js_or (get fd (String (qid (qs ! k)))) (JStr [])))"
    by simp
next
  fix q assume d: "distinct (map qid qs)" and q: "q \<in> set qs"
  have "length (filter (\<lambda>r. map_of r ''question_id'' = Some (Num (qid q))) rows)
      = length (filter (\<lambda>q'. Some (Num (qid q')) = Some (Num (qid q))) qs)"
    using responsePayload_ids [OF assms] by (rule count_by_key)
  also have "\<dots> = length (filter (\<lambda>q'. qid q' = qid q) qs)" by simp
  also have "\<dots> = 1" using d q by (rule distinct_count_one)
  finally show "length (filter (\<lambda>r. map_of r ''question_id'' = Some (Num (qid q))) rows) = 1" .
qed

theorem submission_record_per_question_witness:
  "length [[(''question_id'', Num 10), (''answer'', Val (JStr (js ''no'')))],
          [(''question_id'', Num 11), (''answer'', Val (JStr (js ''x'')))]] = length [scenario_q10, scenario_q11] \<and>
   map_of [(''question_id'', Num 11), (''answer'', Val (JStr (js ''x'')))] ''question_id'' = Some (Num (qid scenario_q11))"
  using submission_record_per_question [OF scenario_payload]
  by (simp add: scenario_q11_def)

text \<open>
  The claim as stated fails on scenario A: with the answer \<^verbatim>\<open>no\<close> to question 10 the
  sub-question 11 is hidden, and its earlier answer \<^verbatim>\<open>x\<close> is submitted all the same.
\<close>

theorem hidden_question_is_submitted:
  "\<not> shouldDisplay scenario_fd scenario_q11 \<and>
   responsePayload storage_ok scenario_fd 0 [scenario_q10, scenario_q11] =
     Inr [[(''question_id'', Num 10), (''answer'', Val (JStr (js ''no'')))],
          [(''question_id'', Num 11), (''answer'', Val (JStr (js ''x'')))]]"
proof
  show "\<not> shouldDisplay scenario_fd scenario_q11" by code_simp
  show "responsePayload storage_ok scenario_fd 0 [scenario_q10, scenario_q11] =
     Inr [[(''question_id'', Num 10), (''answer'', Val (JStr (js ''no'')))],
          [(''question_id'', Num 11), (''answer'', Val (JStr (js ''x'')))]]"
    by (rule scenario_payload)
qed

subsection \<open>C6: a failed upload fails the whole submission\<close>

text \<open>
  C6. If the upload of any file question fails, \<^verbatim>\<open>handleSubmit\<close> issues no upsert at
  all, alerts the user, leaves the Answer State and the submitted flag as they were and
  ends with the loading flag cleared, so the form stays editable.
\<close>

theorem upload_failure_aborts_submission:
  assumes "k < length (questions st)"
    and "file_to_upload (formData st) (questions st ! k) = Some f"
    and "error (upload env k (js ''files/'' @ file_name f) f) = Some e"
  shows "fst (handleSubmit env st) = st\<lparr>loading := False\<rparr> \<and>
    formData (fst (handleSubmit env st)) = formData st \<and>
    submitted (fst (handleSubmit env st)) = submitted st \<and>
    Alert submission_alert \<in> set (snd (handleSubmit env st)) \<and>
    (\<forall>t rows c. Upsert t rows c \<notin> set (snd (handleSubmit env st)))"
proof -
  from responsePayload_failure [of k "questions st" "formData st" f env 0 e] assms
  obtain e' where "responsePayload env (formData st) 0 (questions st) = Inl e'"
    by auto
  then have h: "handleSubmit env st =
      (st\<lparr>loading := False\<rparr>,
       uploads (formData st) (questions st) @ [ConsoleError ''Submission error:'', Alert submission_alert])"
    by (simp add: handleSubmit_def)
  have "Upsert t rows c \<notin> set (uploads (formData st) (questions st))" for t rows c
    using uploads_only_upload by fastforce
  with h show ?thesis by simp
qed

theorem upload_failure_aborts_submission_witness:
  "snd (handleSubmit storage_down cv_state) =
      [Upload ''profile_photo'' (js ''files/cv.pdf'') (File (js ''cv.pdf'') [37, 80, 68, 70]),
       ConsoleError ''Submission error:'', Alert submission_alert] \<and>
   fst (handleSubmit storage_down cv_state) = cv_state\<lparr>loading := False\<rparr> \<and>
   \<not> submitted (fst (handleSubmit storage_down cv_state))"
proof -
  have k: "(1::nat) < length (questions cv_state)" by (simp add: cv_state_def)
  have f: "file_to_upload (formData cv_state) (questions cv_state ! 1) = Some (File (js ''cv.pdf'') [37, 80, 68, 70])"
    by code_simp
  have e: "error (upload storage_down 1 (js ''files/'' @ file_name (File (js ''cv.pdf'') [37, 80, 68, 70]))
      (File (js ''cv.pdf'') [37, 80, 68, 70])) = Some (Err ''upload failed'')"
    by (simp add: storage_down_def)
  have "snd (handleSubmit storage_down cv_state) =
      [Upload ''profile_photo'' (js ''files/cv.pdf'') (File (js ''cv.pdf'') [37, 80, 68, 70]),
       ConsoleError ''Submission error:'', Alert submission_alert]"
    by code_simp
  moreover have "\<not> submitted cv_state" by (simp add: cv_state_def)
  ultimately show ?thesis
    using upload_failure_aborts_submission [OF k f e] by simp
qed

subsection \<open>C7: the conflict key of the upsert\<close>

text \<open>
  C7. The records are sent in one upsert whose conflict target is
  \<^verbatim>\<open>organization_id,question_id\<close>, but a record has only the properties
  \<^verbatim>\<open>question_id\<close> and \<^verbatim>\<open>answer\<close>: no record carries an organization identifier.
\<close>

theorem submission_rows_lack_organization_id:
  "snd (handleSubmit storage_ok \<lparr>questions = [scenario_q10], formData = [(js ''10'', JStr (js ''a''))],
       loading = False, submitted = False, collapsedSections = []\<rparr>) =
      [Upsert ''responses'' [[(''question_id'', Num 10), (''answer'', Val (JStr (js ''a'')))]]
         ''organization_id,question_id''] \<and>
   submitted (fst (handleSubmit storage_ok \<lparr>questions = [scenario_q10], formData = [(js ''10'', JStr (js ''a''))],
       loading = False, submitted = False, collapsedSections = []\<rparr>)) \<and>
   map_of [(''question_id'', Num 10), (''answer'', Val (JStr (js ''a'')))] ''organization_id'' = None"
  by code_simp

subsection \<open>C4: the multi-choice update\<close>

text \<open>
  C4 (as amended). For an entry that is absent (or falsy) or a list, a check appends the
  option value at the end of the list without looking for it: a value that is not yet
  stored is then stored exactly once, and a second check of the same value stores it a
  second time. An uncheck removes every occurrence of the value; when the value is not in
  the list the elements are unchanged, and when the entry is a list that does not contain
  the value the Answer State is unchanged.
\<close>

theorem checkbox_appends_and_filters:
  assumes "get fd (String q) = JArr xs \<or> \<not> truthy (get fd (String q)) \<and> xs = []"
  shows "handleCheckboxChange v True q fd = Inr (assign (String q) (JArr (xs @ [JStr v])) fd) \<and>
    handleCheckboxChange v True q (assign (String q) (JArr (xs @ [JStr v])) fd)
      = Inr (assign (String q) (JArr (xs @ [JStr v, JStr v])) fd) \<and>
    (JStr v \<notin> set xs \<longrightarrow> count_list (xs @ [JStr v]) (JStr v) = 1) \<and>
    handleCheckboxChange v False q fd = Inr (assign (String q) (JArr (filter (\<lambda>x. x \<noteq> JStr v) xs)) fd) \<and>
    (JStr v \<notin> set xs \<longrightarrow> handleCheckboxChange v False q fd = Inr (assign (String q) (JArr xs) fd)) \<and>
    (JStr v \<notin> set xs \<and> map_of fd (String q) = Some (JArr xs) \<longrightarrow> handleCheckboxChange v False q fd = Inr fd)"
proof -
  have cur: "js_or (get fd (String q)) (JArr []) = JArr xs"
    using assms by (rule current_values)
  have chk: "handleCheckboxChange v True q fd = Inr (assign (String q) (JArr (xs @ [JStr v])) fd)"
    by (simp add: handleCheckboxChange_def cur)
  have chk2: "handleCheckboxChange v True q (assign (String q) (JArr (xs @ [JStr v])) fd)
      = Inr (assign (String q) (JArr (xs @ [JStr v, JStr v])) fd)"
    by (simp add: handleCheckboxChange_def get_assign js_or_def assign_assign)
  have unchk: "handleCheckboxChange v False q fd = Inr (assign (String q) (JArr (filter (\<lambda>x. x \<noteq> JStr v) xs)) fd)"
    by (simp add: handleCheckboxChange_def cur strict_eq_JStr)
  have same: "filter (\<lambda>x. x \<noteq> JStr v) xs = xs" if "JStr v \<notin> set xs"
    using that by (auto simp: filter_id_conv)
  have once: "count_list (xs @ [JStr v]) (JStr v) = 1" if "JStr v \<notin> set xs"
    using that by (simp add: count_list_0_iff)
  have noop: "handleCheckboxChange v False q fd = Inr fd"
    if "JStr v \<notin> set xs" "map_of fd (String q) = Some (JArr xs)"
  proof -
    from that(2) have "assign (String q) (JArr xs) fd = fd" by (rule assign_same)
    with unchk same [OF that(1)] show ?thesis by simp
  qed
  from chk chk2 unchk same once noop show ?thesis by simp
qed

theorem checkbox_appends_and_filters_witness:
  "handleCheckboxChange (js ''b'') True 3 [(js ''3'', JArr [JStr (js ''a'')])]
     = Inr [(js ''3'', JArr [JStr (js ''a''), JStr (js ''b'')])] \<and>
   handleCheckboxChange (js ''b'') False 3 [(js ''3'', JArr [JStr (js ''a'')])]
     = Inr [(js ''3'', JArr [JStr (js ''a'')])]"
proof -
  have s: "String 3 = js ''3''" by code_simp
  have g: "get [(js ''3'', JArr [JStr (js ''a'')])] (String 3) = JArr [JStr (js ''a'')]"
    by (simp add: s get_def)
  have n: "JStr (js ''b'') \<notin> set [JStr (js ''a'')]" by (simp add: js_def)
  have e: "map_of [(js ''3'', JArr [JStr (js ''a'')])] (String 3) = Some (JArr [JStr (js ''a'')])"
    by (simp add: s)
  from checkbox_appends_and_filters [of "[(js ''3'', JArr [JStr (js ''a'')])]" 3 "[JStr (js ''a'')]" "js ''b''"] g n e
  show ?thesis by (simp add: s)
qed

text \<open>
  The claim as stated fails: checking \<^verbatim>\<open>a\<close> twice stores it twice, and unchecking on an
  empty Answer State creates an entry holding the empty list where there was none.
\<close>

theorem checkbox_check_twice_duplicates:
  "handleCheckboxChange (js ''a'') True 3 [] = Inr [(js ''3'', JArr [JStr (js ''a'')])] \<and>
   handleCheckboxChange (js ''a'') True 3 [(js ''3'', JArr [JStr (js ''a'')])]
     = Inr [(js ''3'', JArr [JStr (js ''a''), JStr (js ''a'')])] \<and>
   \<not> distinct [JStr (js ''a''), JStr (js ''a'')] \<and>
   handleCheckboxChange (js ''a'') False 3 [] = Inr [(js ''3'', JArr [])] \<and>
   map_of ([] :: formdata) (js ''3'') = None"
proof -
  have s: "String 3 = js ''3''" by code_simp
  show ?thesis
    by (simp add: handleCheckboxChange_def s get_def js_or_def)
qed

subsection \<open>C5: the save-time encoding and the resume-time decoding\<close>

text \<open>
  C5. The answer that \<^verbatim>\<open>handleSaveProgress\<close> writes for an entry and the decoding that
  \<^verbatim>\<open>handleSearch\<close> applies to a stored answer are inverse to each other on strings and
  on lists of strings: a string that does not begin with \<^verbatim>\<open>{\<close> or \<^verbatim>\<open>[\<close> comes back
  identical, and a list of strings comes back as the same list (hence with the same
  elements), also when it is read through the \<^verbatim>\<open>forEach\<close> of the resume operation.
\<close>

theorem save_resume_round_trip:
  "(\<not> startsWith s 0x7B \<and> \<not> startsWith s 0x5B \<longrightarrow> decode (encode (JStr s)) = Returns (JStr s)) \<and>
   decode (encode (JArr (map JStr xs))) = Returns (JArr (map JStr xs)) \<and>
   (\<not> startsWith s 0x7B \<and> \<not> startsWith s 0x5B \<longrightarrow>
      savedData [Entry n (encode (JStr s))] saved = Returns (assign (String n) (JStr s) saved)) \<and>
   savedData [Entry n (encode (JArr (map JStr xs)))] saved = Returns (assign (String n) (JArr (map JStr xs)) saved)"
proof -
  have a: "decode (encode (JStr s)) = Returns (JStr s)"
    if "\<not> startsWith s 0x7B \<and> \<not> startsWith s 0x5B"
    using that by (simp add: encode_def decode_def)
  have "encode (JArr (map JStr xs)) = JStr (JSON_stringify (JArr (map JStr xs)))"
    by (simp add: encode_def)
  then have b: "decode (encode (JArr (map JStr xs))) = Returns (JArr (map JStr xs))"
    by (simp add: decode_def JSON_stringify_array_starts JSON_parse_stringify_strings
        del: JSON_stringify.simps)
  from a b show ?thesis by simp
qed

theorem save_resume_round_trip_witness:
  "decode (encode (JStr (js ''hello''))) = Returns (JStr (js ''hello'')) \<and>
   decode (encode (JArr [JStr (js ''a''), JStr (js ''b'')])) = Returns (JArr [JStr (js ''a''), JStr (js ''b'')])"
  using save_resume_round_trip [of "js ''hello''" "[js ''a'', js ''b'']"]
  by (simp add: startsWith_def js_def)

subsection \<open>C8: resuming with an email that matches no organization\<close>

text \<open>
  C8. With an email in the Answer State and no organization for it, \<^verbatim>\<open>.single()\<close>
  reports the empty result as an error, so \<^verbatim>\<open>handleSearch\<close> throws into its
  \<^verbatim>\<open>catch\<close> block: the user sees the generic failure message, not the message of the
  \<^verbatim>\<open>!orgData\<close> branch. No responses are fetched and the Answer State is unchanged.
\<close>

theorem resume_without_organization:
  "handleSearch no_organizations email_state =
     Returns (email_state\<lparr>loading := False\<rparr>,
       [SelectSingle ''organizations'' ''id'' ''contactEmail'' (JStr (js ''nobody@example.org'')),
        ConsoleError ''Error fetching progress:'',
        Alert ''Failed to retrieve saved progress.''])"
  by (simp add: handleSearch_def no_organizations_def email_state_def get_def single_def search_failed_def js_def Let_def)

subsection \<open>The rendered tree\<close>

lemma collect_map:
  "collect (map f xs) = Inr ys \<Longrightarrow> list_all2 (\<lambda>x y. f x = Inr y) xs ys"
proof (induction xs arbitrary: ys)
  case Nil
  then show ?case by simp
next
  case (Cons x xs)
  from Cons.prems obtain y ys' where "f x = Inr y" "collect (map f xs) = Inr ys'" "ys = y # ys'"
    by (auto split: sum.splits)
  with Cons.IH show ?case by simp
qed

lemma list_all_zip:
  "list_all2 R xs ys \<Longrightarrow> (\<And>x y. x \<in> set xs \<Longrightarrow> R x y \<Longrightarrow> P (g x y)) \<Longrightarrow>
   list_all P (map (\<lambda>(x, y). g x y) (zip xs ys))"
  by (induction xs ys rule: list_all2_induct) auto

lemma list_all_concat:
  "list_all2 R xs ys \<Longrightarrow> (\<And>x y. x \<in> set xs \<Longrightarrow> R x y \<Longrightarrow> list_all P y) \<Longrightarrow>
   list_all P (concat ys)"
  by (induction xs ys rule: list_all2_induct) auto

lemma list_all_results:
  "list_all2 R xs ys \<Longrightarrow> (\<And>x y. x \<in> set xs \<Longrightarrow> R x y \<Longrightarrow> P y) \<Longrightarrow> list_all P ys"
  by (induction xs ys rule: list_all2_induct) auto

lemma shape_plain:
  "bindings props = [] \<Longrightarrow> map_of props ''key'' = None \<Longrightarrow> shape qs tag props kids"
  by (simp add: shape_def)

lemma shape_keyed:
  "bindings props = [] \<Longrightarrow> map_of props ''key'' = Some (PNum k) \<Longrightarrow> renderable qs k \<Longrightarrow>
   shape qs tag props kids"
  by (simp add: shape_def)

lemma render_text_shape:
  "q \<in> set qs \<Longrightarrow> renderable qs (qid q) \<Longrightarrow> all_elements (shape qs) (render_text fd q)"
  by (auto simp: render_text_def shape_def prop_string_def leafish_def)

lemma render_textarea_shape:
  "q \<in> set qs \<Longrightarrow> renderable qs (qid q) \<Longrightarrow> all_elements (shape qs) (render_textarea fd q)"
  by (auto simp: render_textarea_def shape_def prop_string_def leafish_def)

lemma render_file_shape:
  "q \<in> set qs \<Longrightarrow> renderable qs (qid q) \<Longrightarrow> all_elements (shape qs) (render_file fd q)"
  by (auto simp: render_file_def shape_def prop_string_def leafish_def)

lemma render_file_photo_shape:
  "q \<in> set qs \<Longrightarrow> renderable qs (qid q) \<Longrightarrow> all_elements (shape qs) (render_file_photo fd q)"
  by (auto simp: render_file_photo_def shape_def prop_string_def leafish_def split: jsval.splits)

lemma render_select_shape:
  "q \<in> set qs \<Longrightarrow> renderable qs (qid q) \<Longrightarrow> all_elements (shape qs) (render_select fd q)"
  by (auto simp: render_select_def shape_def prop_string_def leafish_def is_element_def list_all_iff)

lemma render_radio_option_shape:
  "q \<in> set qs \<Longrightarrow> all_elements (shape qs) (render_radio_option fd q opt)"
  by (auto simp: render_radio_option_def shape_def prop_string_def leafish_def)

lemma render_checkbox_option_shape:
  "q \<in> set qs \<Longrightarrow> render_checkbox_option fd q opt = Inr n \<Longrightarrow> all_elements (shape qs) n"
  by (auto simp: render_checkbox_option_def shape_def prop_string_def leafish_def split: sum.splits)

lemma render_checkbox_shape:
  assumes "q \<in> set qs" "renderable qs (qid q)" "render_checkbox fd q = Inr n"
  shows "all_elements (shape qs) n"
proof -
  from assms(3) obtain boxes where c: "collect (map (render_checkbox_option fd q) (option_list q)) = Inr boxes"
    and n: "n = Element ''div'' [(''key'', PNum (qid q))] (Element ''span'' [] [Expr (JStr (label q))] # boxes)"
    by (auto simp: render_checkbox_def split: sum.splits)
  have "list_all (all_elements (shape qs)) boxes"
    using collect_map [OF c]
  proof (rule list_all_results)
    fix opt n' assume "render_checkbox_option fd q opt = Inr n'"
    with assms(1) show "all_elements (shape qs) n'" by (rule render_checkbox_option_shape)
  qed
  with assms(2) n show ?thesis by (simp add: shape_def)
qed

lemma subQuestions_renderable:
  "q \<in> set qs \<Longrightarrow> sub \<in> set (subQuestions qs fd q) \<Longrightarrow> sub \<in> set qs \<and> renderable qs (qid sub)"
  by (auto simp: subQuestions_def renderable_def)

lemma renderQuestion_shape:
  "q \<in> set qs \<Longrightarrow> renderable qs (qid q) \<Longrightarrow> renderQuestion depth qs fd q = Inr ns \<Longrightarrow>
   list_all (all_elements (shape qs)) ns"
proof (induction depth arbitrary: q ns)
  case 0
  then show ?case by simp
next
  case (Suc depth)
  note q = Suc.prems(1,2)
  show ?case
  proof (cases "shouldDisplay fd q \<and> qtype q = js ''radio''")
    case True
    with Suc.prems(3) obtain subs
      where c: "collect (map (renderQuestion depth qs fd) (subQuestions qs fd q)) = Inr subs"
        and ns: "ns = [Element ''div'' [(''key'', PNum (qid q))]
                    (Element ''span'' [] [Expr (JStr (label q))]
                     # map (render_radio_option fd q) (option_list q)
                     @ map (\<lambda>(subQuestion, rendered). Element ''div'' [(''key'', PNum (qid subQuestion))] rendered)
                         (zip (subQuestions qs fd q) subs))]"
      by (auto simp: js_def split: sum.splits)
    have opts: "list_all (all_elements (shape qs)) (map (render_radio_option fd q) (option_list q))"
      using q(1) by (simp add: list_all_iff render_radio_option_shape)
    have wrapped: "list_all (all_elements (shape qs))
        (map (\<lambda>(subQuestion, rendered). Element ''div'' [(''key'', PNum (qid subQuestion))] rendered)
           (zip (subQuestions qs fd q) subs))"
      using collect_map [OF c]
    proof (rule list_all_zip)
      fix sub rendered
      assume s: "sub \<in> set (subQuestions qs fd q)" and r: "renderQuestion depth qs fd sub = Inr rendered"
      from subQuestions_renderable [OF q(1) s] have m: "sub \<in> set qs" "renderable qs (qid sub)" by simp_all
      have "shape qs ''div'' [(''key'', PNum (qid sub))] rendered"
        using m(2) by (simp add: shape_keyed)
      with Suc.IH [OF m r]
      show "all_elements (shape qs) (Element ''div'' [(''key'', PNum (qid sub))] rendered)"
        by simp
    qed
    have "shape qs ''div'' [(''key'', PNum (qid q))] kids" for kids
      using q(2) by (simp add: shape_keyed)
    moreover have "shape qs ''span'' [] kids" for kids
      by (simp add: shape_plain)
    ultimately show ?thesis using opts wrapped ns by simp
  next
    case False
    with Suc.prems(3) q show ?thesis
      by (auto simp: render_text_shape render_select_shape render_file_shape render_textarea_shape
          render_file_photo_shape render_checkbox_shape split: if_splits sum.splits)
  qed
qed

lemma set_entries: "set (entries obj) = set obj"
  by (auto simp: entries_def)

lemma assign_mem: "p \<in> set (assign k v obj) \<Longrightarrow> p = (k, v) \<or> p \<in> set obj"
  by (induction obj) (auto split: if_splits)

lemma groups_within_step:
  assumes "groups_within acc S" "S \<subseteq> T" "q \<in> T"
  shows "groups_within
     (modify (section_name q) [] (modify (subsection_name q) [] (\<lambda>group. group @ [q])) acc) T"
  unfolding groups_within_def
proof (intro ballI)
  fix sec sub
  assume sec: "sec \<in> set (modify (section_name q) [] (modify (subsection_name q) [] (\<lambda>group. group @ [q])) acc)"
    and sub: "sub \<in> set (snd sec)"
  define old where "old = (case map_of acc (section_name q) of None \<Rightarrow> [] | Some v \<Rightarrow> v)"
  define g where "g = (case map_of old (subsection_name q) of None \<Rightarrow> [] | Some v \<Rightarrow> v)"
  have old: "set (snd s) \<subseteq> S" if "s \<in> set old" for s
  proof (cases "map_of acc (section_name q)")
    case None
    with that show ?thesis by (simp add: old_def)
  next
    case (Some subs)
    then have "(section_name q, subs) \<in> set acc" by (rule map_of_SomeD)
    with assms(1) Some that show ?thesis by (fastforce simp: groups_within_def old_def)
  qed
  have g: "set g \<subseteq> S"
  proof (cases "map_of old (subsection_name q)")
    case None
    then show ?thesis by (simp add: g_def)
  next
    case (Some grp)
    then have "(subsection_name q, grp) \<in> set old" by (rule map_of_SomeD)
    from old [OF this] Some show ?thesis by (simp add: g_def)
  qed
  from sec have "sec = (section_name q, modify (subsection_name q) [] (\<lambda>group. group @ [q]) old) \<or> sec \<in> set acc"
    unfolding modify_def old_def by (rule assign_mem)
  then show "set (snd sub) \<subseteq> T"
  proof
    assume "sec \<in> set acc"
    with assms(1) sub have "set (snd sub) \<subseteq> S" by (auto simp: groups_within_def)
    with assms(2) show ?thesis by blast
  next
    assume "sec = (section_name q, modify (subsection_name q) [] (\<lambda>group. group @ [q]) old)"
    with sub have "sub \<in> set (assign (subsection_name q) (g @ [q]) old)"
      by (simp add: modify_def g_def)
    then have "sub = (subsection_name q, g @ [q]) \<or> sub \<in> set old"
      by (rule assign_mem)
    then show ?thesis
    proof
      assume "sub = (subsection_name q, g @ [q])"
      with g assms(2,3) show ?thesis by auto
    next
      assume "sub \<in> set old"
      from old [OF this] assms(2) show ?thesis by blast
    qed
  qed
qed

lemma groups_within_foldl:
  "groups_within acc S \<Longrightarrow>
   groups_within
     (foldl (\<lambda>acc question.
              modify (section_name question) []
                (modify (subsection_name question) [] (\<lambda>group. group @ [question])) acc) acc qs)
     (S \<union> set qs)"
proof (induction qs arbitrary: acc S)
  case Nil
  then show ?case by simp
next
  case (Cons q qs)
  have "groups_within
     (modify (section_name q) [] (modify (subsection_name q) [] (\<lambda>group. group @ [q])) acc) (insert q S)"
    using Cons.prems by (rule groups_within_step) auto
  from Cons.IH [OF this] show ?case by simp
qed

lemma groupedQuestions_within: "groups_within (groupedQuestions qs) (set qs)"
  using groups_within_foldl [of "[]" "{}" qs] by (simp add: groupedQuestions_def groups_within_def)

lemma top_level_renderable:
  "set grp \<subseteq> set qs \<Longrightarrow> q \<in> set (top_level grp) \<Longrightarrow> q \<in> set qs \<and> renderable qs (qid q)"
  by (auto simp: top_level_def renderable_def)

lemma toggle_button_shape: "all_elements (shape qs) (toggle_button key title)"
  by (simp add: toggle_button_def shape_def leafish_def)

lemma legend_shape: "all_elements (shape qs) (Element ''legend'' [] [toggle_button key title])"
  by (simp add: toggle_button_shape shape_plain)

lemma fieldset_shape: "shape qs ''fieldset'' [(''key'', PValue v)] kids"
  by (simp add: shape_def)

lemma top_level_rendered_shape:
  assumes "set grp \<subseteq> set qs"
    and "collect (map (renderQuestion depth qs fd) (top_level grp)) = Inr rendered"
  shows "list_all (all_elements (shape qs)) (concat rendered)"
    and "list_all (all_elements (shape qs))
      (map (\<lambda>(question, r). Element ''div'' [(''key'', PNum (qid question))] r) (zip (top_level grp) rendered))"
proof -
  have each: "list_all (all_elements (shape qs)) r \<and> renderable qs (qid q)"
    if "q \<in> set (top_level grp)" "renderQuestion depth qs fd q = Inr r" for q r
  proof -
    from top_level_renderable [OF assms(1) that(1)] have m: "q \<in> set qs" "renderable qs (qid q)"
      by simp_all
    from renderQuestion_shape [OF m that(2)] m(2) show ?thesis by simp
  qed
  show "list_all (all_elements (shape qs)) (concat rendered)"
    using collect_map [OF assms(2)] by (rule list_all_concat) (simp add: each)
  show "list_all (all_elements (shape qs))
      (map (\<lambda>(question, r). Element ''div'' [(''key'', PNum (qid question))] r) (zip (top_level grp) rendered))"
    using collect_map [OF assms(2)]
  proof (rule list_all_zip)
    fix q r assume "q \<in> set (top_level grp)" "renderQuestion depth qs fd q = Inr r"
    from each [OF this] show "all_elements (shape qs) (Element ''div'' [(''key'', PNum (qid q))] r)"
      by (simp add: shape_keyed)
  qed
qed

lemma render_subsection_shape:
  assumes "set (snd entry) \<subseteq> set (questions st)"
    and "render_subsection depth st section entry = Inr ns"
  shows "list_all (all_elements (shape (questions st))) ns"
proof -
  consider (plain) "fst entry = js ''No Subsection''"
    | (closed) "fst entry \<noteq> js ''No Subsection''" "collapsed (collapsedSections st) (section @ js ''-'' @ fst entry)"
    | (opened) "fst entry \<noteq> js ''No Subsection''" "\<not> collapsed (collapsedSections st) (section @ js ''-'' @ fst entry)"
    by blast
  then show ?thesis
  proof cases
    case plain
    with assms(2) obtain rendered
      where c: "collect (map (renderQuestion depth (questions st) (formData st)) (top_level (snd entry))) = Inr rendered"
        and ns: "ns = map (\<lambda>(question, r). Element ''div'' [(''key'', PNum (qid question))] r)
                    (zip (top_level (snd entry)) rendered)"
      by (auto simp: render_subsection_def split: sum.splits)
    from top_level_rendered_shape(2) [OF assms(1) c] ns show ?thesis by simp
  next
    case closed
    with assms(2) have "ns = [Element ''fieldset'' [(''key'', PValue (JStr (fst entry)))]
               [Element ''legend'' [] [toggle_button (section @ js ''-'' @ fst entry) (fst entry)],
                Expr (JBool False)]]"
      by (simp add: render_subsection_def)
    then show ?thesis
      by (simp add: fieldset_shape toggle_button_shape shape_plain)
  next
    case opened
    with assms(2) obtain rendered
      where c: "collect (map (renderQuestion depth (questions st) (formData st)) (top_level (snd entry))) = Inr rendered"
        and ns: "ns = [Element ''fieldset'' [(''key'', PValue (JStr (fst entry)))]
                    (Element ''legend'' [] [toggle_button (section @ js ''-'' @ fst entry) (fst entry)]
                     # concat rendered)]"
      by (auto simp: render_subsection_def split: sum.splits)
    from top_level_rendered_shape(1) [OF assms(1) c] ns show ?thesis
      by (simp add: fieldset_shape toggle_button_shape shape_plain)
  qed
qed

lemma render_section_shape:
  assumes "\<forall>sub \<in> set (snd entry). set (snd sub) \<subseteq> set (questions st)"
    and "render_section depth st entry = Inr n"
  shows "all_elements (shape (questions st)) n"
proof (cases "collapsed (collapsedSections st) (fst entry)")
  case True
  with assms(2) have "n = Element ''fieldset'' [(''key'', PValue (JStr (fst entry)))]
               [Element ''legend'' [] [toggle_button (fst entry) (fst entry)], Expr (JBool False)]"
    by (simp add: render_section_def)
  then show ?thesis by (simp add: fieldset_shape toggle_button_shape shape_plain)
next
  case False
  with assms(2) obtain rendered
    where c: "collect (map (render_subsection depth st (fst entry)) (entries (snd entry))) = Inr rendered"
      and n: "n = Element ''fieldset'' [(''key'', PValue (JStr (fst entry)))]
                    (Element ''legend'' [] [toggle_button (fst entry) (fst entry)] # concat rendered)"
    by (auto simp: render_section_def split: sum.splits)
  have "list_all (all_elements (shape (questions st))) (concat rendered)"
    using collect_map [OF c]
  proof (rule list_all_concat)
    fix sub ns assume "sub \<in> set (entries (snd entry))" "render_subsection depth st (fst entry) sub = Inr ns"
    then have "sub \<in> set (snd entry)" and r: "render_subsection depth st (fst entry) sub = Inr ns"
      by (simp_all add: set_entries)
    with assms(1) have "set (snd sub) \<subseteq> set (questions st)" by blast
    then show "list_all (all_elements (shape (questions st))) ns"
      using r by (rule render_subsection_shape)
  qed
  with n show ?thesis by (simp add: fieldset_shape toggle_button_shape shape_plain)
qed

lemma submit_button_shape: "all_elements (shape qs) submit_button"
  by (simp add: submit_button_def shape_plain)

lemma render_form_shape:
  assumes "render_form depth st = Inr n"
  shows "all_elements (shape (questions st)) n"
proof (cases "loading st")
  case True
  with assms have "n = Element ''form'' [(''encType'', PValue (JStr (js ''multipart/form-data'')))]
               [Element ''p'' [] [Text ''Loading...''], submit_button]"
    by (simp add: render_form_def)
  then show ?thesis by (simp add: submit_button_shape shape_plain)
next
  case False
  with assms obtain sections
    where c: "collect (map (render_section depth st) (entries (groupedQuestions (questions st)))) = Inr sections"
      and n: "n = Element ''form'' [(''encType'', PValue (JStr (js ''multipart/form-data'')))]
                    (sections @ [submit_button])"
    by (auto simp: render_form_def split: sum.splits)
  have "list_all (all_elements (shape (questions st))) sections"
    using collect_map [OF c]
  proof (rule list_all_results)
    fix sec n' assume "sec \<in> set (entries (groupedQuestions (questions st)))" "render_section depth st sec = Inr n'"
    then have "sec \<in> set (groupedQuestions (questions st))" "render_section depth st sec = Inr n'"
      by (simp_all add: set_entries)
    with groupedQuestions_within [of "questions st"]
    have "\<forall>sub \<in> set (snd sec). set (snd sub) \<subseteq> set (questions st)"
      by (simp add: groups_within_def)
    then show "all_elements (shape (questions st)) n'"
      using \<open>render_section depth st sec = Inr n'\<close> by (rule render_section_shape)
  qed
  with n show ?thesis by (simp add: submit_button_shape shape_plain)
qed

lemma page_shape: "all_elements (shape qs) body \<Longrightarrow> all_elements (shape qs) (page body)"
  by (simp add: page_def shape_plain)

lemma render_shape:
  assumes "render depth st = Returns tree"
  shows "all_elements (shape (questions st)) tree"
proof (cases "submitted st")
  case True
  with assms have "tree = page (Element ''h1'' [] [Text ''Thank you for submitting!''])"
    by (simp add: render_def split: if_splits)
  then show ?thesis by (simp add: page_shape shape_plain)
next
  case False
  with assms obtain form where "render_form depth st = Inr form" "tree = page form"
    by (auto simp: render_def split: if_splits sum.splits)
  then show ?thesis by (simp add: page_shape render_form_shape)
qed

lemma element_keys_shaped:
  "all_elements (shape qs) n \<Longrightarrow> k \<in> set (element_keys n) \<Longrightarrow> renderable qs k"
proof (induction n)
  case (Text t)
  then show ?case by simp
next
  case (Expr v)
  then show ?case by simp
next
  case (Element tag props kids)
  from Element.prems(2) consider "map_of props ''key'' = Some (PNum k)"
    | kid where "kid \<in> set kids" "k \<in> set (element_keys kid)"
    by (auto split: option.splits prop_value.splits)
  then show ?case
  proof cases
    case 1
    with Element.prems(1) show ?thesis by (simp add: shape_def)
  next
    case 2
    moreover from Element.prems(1) 2(1) have "all_elements (shape qs) kid" by (simp add: list_all_iff)
    ultimately show ?thesis using Element.IH by blast
  qed
qed

subsection \<open>Events reach only the handlers of their target\<close>

lemma chain_nonempty: "chain path n = Some ch \<Longrightarrow> ch \<noteq> []"
  by (cases path) (auto split: node.splits if_splits)

lemma chain_Cons:
  "chain (i # path) n = Some ch \<Longrightarrow>
   \<exists>tag props kids ch'. n = Element tag props kids \<and> i < length kids \<and>
      chain path (kids ! i) = Some ch' \<and> ch = n # ch'"
  by (auto split: node.splits if_splits)

lemma chain_shaped:
  "all_elements P tree \<Longrightarrow> chain path tree = Some ch \<Longrightarrow> list_all (all_elements P) ch"
proof (induction path arbitrary: tree ch)
  case Nil
  then show ?case by auto
next
  case (Cons i path)
  from chain_Cons [OF Cons.prems(2)] obtain tag props kids ch'
    where t: "tree = Element tag props kids" "i < length kids"
      and c: "chain path (kids ! i) = Some ch'" "ch = tree # ch'"
    by blast
  from Cons.prems(1) t have "all_elements P (kids ! i)"
    by (simp add: list_all_length)
  from Cons.IH [OF this c(1)] Cons.prems(1) c(2) show ?case by simp
qed

lemma chain_not_solid:
  "\<not> is_element n \<Longrightarrow> chain path n = Some ch \<Longrightarrow> \<not> solid (last ch)"
  by (cases path; cases n) (auto simp: is_element_def solid_def)

lemma chain_leafish:
  assumes "leafish n" "chain path n = Some ch"
  shows "\<not> solid (last ch)"
proof (cases n)
  case (Element tag props kids)
  with assms(1) have l: "tag = ''option''" "list_all (\<lambda>k. \<not> is_element k) kids"
    by (simp_all add: leafish_def)
  show ?thesis
  proof (cases path)
    case Nil
    with assms(2) Element l(1) show ?thesis by (auto simp: solid_def)
  next
    case (Cons i path')
    from chain_Cons [OF assms(2) [unfolded Cons]] Element obtain ch'
      where "i < length kids" "chain path' (kids ! i) = Some ch'" "ch = n # ch'"
      by auto
    moreover from this l(2) have "\<not> is_element (kids ! i)" by (simp add: list_all_length)
    ultimately show ?thesis
      using chain_not_solid [of "kids ! i" path' ch'] chain_nonempty [of path' "kids ! i" ch'] by simp
  qed
next
  case (Text t)
  with assms(2) show ?thesis by (intro chain_not_solid [of n path]) (simp_all add: is_element_def)
next
  case (Expr v)
  with assms(2) show ?thesis by (intro chain_not_solid [of n path]) (simp_all add: is_element_def)
qed

lemma ancestors_unbound:
  "all_elements (shape qs) tree \<Longrightarrow> chain path tree = Some ch \<Longrightarrow> solid (last ch) \<Longrightarrow>
   a \<in> set (butlast ch) \<Longrightarrow> handlers_for ev a = []"
proof (induction path arbitrary: tree ch)
  case Nil
  then show ?case by auto
next
  case (Cons i path)
  from chain_Cons [OF Cons.prems(2)] obtain tag props kids ch'
    where t: "tree = Element tag props kids" "i < length kids"
      and c: "chain path (kids ! i) = Some ch'" "ch = tree # ch'"
    by blast
  have ne: "ch' \<noteq> []" using c(1) by (rule chain_nonempty)
  from Cons.prems(1) t have kid: "all_elements (shape qs) (kids ! i)" and s: "shape qs tag props kids"
    by (simp_all add: list_all_length)
  from Cons.prems(3) c(2) ne have solid': "solid (last ch')" by simp
  have "bindings props = []"
  proof (rule ccontr)
    assume "bindings props \<noteq> []"
    with s have "list_all leafish kids" by (auto simp: shape_def)
    with t(2) have "leafish (kids ! i)" by (simp add: list_all_length)
    from chain_leafish [OF this c(1)] solid' show False by simp
  qed
  then have root: "handlers_for ev tree = []" by (simp add: handlers_for_def t(1))
  from Cons.prems(4) c(2) ne have "a = tree \<or> a \<in> set (butlast ch')" by simp
  then show ?case
  proof
    assume "a = tree"
    with root show ?thesis by simp
  next
    assume "a \<in> set (butlast ch')"
    with Cons.IH [OF kid c(1) solid'] show ?thesis by simp
  qed
qed

lemma bubbling_target:
  assumes "all_elements (shape qs) tree" "chain path tree = Some ch" "solid (last ch)"
  shows "bubbling ev ch = handlers_for ev (last ch)"
proof -
  define b where "b = butlast ch"
  from assms(2) have "ch \<noteq> []" by (rule chain_nonempty)
  then have ch: "ch = b @ [last ch]" by (simp add: b_def)
  have "concat (map (handlers_for ev) (rev b)) = []"
    using ancestors_unbound [OF assms] by (simp add: b_def)
  moreover have "bubbling ev (b @ [last ch]) = handlers_for ev (last ch) @ concat (map (handlers_for ev) (rev b))"
    by (simp add: bubbling_def)
  ultimately show ?thesis using ch by simp
qed

lemma bindings_shaped:
  assumes "shape qs tag props kids" "b \<in> set (bindings props)"
  shows "(\<exists>key. b = (''onClick'', ToggleCollapse key)) \<or>
     (b = (''onChange'', HandleChange) \<and> (\<exists>q \<in> set qs. prop_string props ''name'' = String (qid q))) \<or>
     (\<exists>q \<in> set qs. b = (''onChange'', HandleCheckboxChange (qid q))) \<or>
     (\<exists>q \<in> set qs. b = (''onChange'', HandleFileChange (qid q))) \<or>
     (\<exists>q \<in> set qs. b = (''onChange'', HandleFilePhotoChange (qid q)))"
proof -
  from assms(2) have "bindings props \<noteq> []" by auto
  with assms(1) consider
      "\<exists>q \<in> set qs. bindings props = [(''onChange'', HandleChange)] \<and> prop_string props ''name'' = String (qid q)"
    | "\<exists>q \<in> set qs. bindings props = [(''onChange'', HandleCheckboxChange (qid q))]"
    | "\<exists>q \<in> set qs. bindings props = [(''onChange'', HandleFileChange (qid q))]"
    | "\<exists>q \<in> set qs. bindings props = [(''onChange'', HandleFilePhotoChange (qid q))]"
    | "\<exists>key. bindings props = [(''onClick'', ToggleCollapse key)]"
    unfolding shape_def by blast
  then show ?thesis using assms(2) by cases auto
qed

lemma bound_handlers_shaped:
  "all_elements (shape qs) n \<Longrightarrow> h \<in> set (bound_handlers n) \<Longrightarrow>
   h \<noteq> HandleSubmit \<and> h \<noteq> HandleSaveProgress \<and> h \<noteq> HandleSearch"
proof (induction n)
  case (Text t)
  then show ?case by simp
next
  case (Expr v)
  then show ?case by simp
next
  case (Element tag props kids)
  from Element.prems(2) consider "h \<in> snd ` set (bindings props)" | k where "k \<in> set kids" "h \<in> set (bound_handlers k)"
    by auto
  then show ?case
  proof cases
    case 1
    then obtain b where b: "b \<in> set (bindings props)" "h = snd b" by auto
    from Element.prems(1) have "shape qs tag props kids" by simp
    from bindings_shaped [OF this b(1)] b(2) show ?thesis by auto
  next
    case 2
    moreover from Element.prems(1) 2(1) have "all_elements (shape qs) k" by (simp add: list_all_iff)
    ultimately show ?thesis using Element.IH by blast
  qed
qed

lemma submit_button_inert:
  "handlers_for ev submit_button = [] \<and> \<not> submits submit_button \<and> solid submit_button"
  by (simp add: submit_button_def handlers_for_def submits_def solid_def prop_string_def js_def)

lemma click_submit_button:
  assumes "all_elements (shape qs) tree" "chain path tree = Some ch" "last ch = submit_button"
  shows "dispatch r ch Click st = Returns (st, [])"
proof -
  from submit_button_inert [of "''onClick''"] assms(3) have s: "solid (last ch)" by simp
  from bubbling_target [OF assms(1,2) s] assms(3) submit_button_inert [of "''onClick''"]
  have "bubbling ''onClick'' ch = []" by simp
  with assms(3) submit_button_inert [of "''onClick''"] show ?thesis
    by (simp add: dispatch_def)
qed

lemma submit_button_rendered:
  assumes "render depth st = Returns tree" "\<not> submitted st"
  shows "\<exists>path ch. chain path tree = Some ch \<and> last ch = submit_button"
proof -
  from assms obtain form where f: "render_form depth st = Inr form" and t: "tree = page form"
    by (auto simp: render_def split: if_splits sum.splits)
  from f obtain kids where form: "form = Element ''form'' [(''encType'', PValue (JStr (js ''multipart/form-data'')))]
      (kids @ [submit_button])"
    by (auto simp: render_form_def split: if_splits sum.splits)
  have "chain [3, length kids] tree = Some [tree, form, submit_button]"
    by (simp add: t page_def form)
  moreover have "last [tree, form, submit_button] = submit_button" by simp
  ultimately show ?thesis by blast
qed

subsection \<open>The keys of the Answer State\<close>

lemma digit_units: "\<forall>d \<in> set [0..<10]. (of_nat (48 + d) :: code_unit) \<noteq> 0x63 \<and> (of_nat (48 + d) :: code_unit) \<noteq> 0x2D"
  by code_simp

lemma digits_units: "c \<in> set (digits n) \<Longrightarrow> \<exists>d < 10. c = of_nat (48 + d)"
proof (induction n rule: digits.induct)
  case (1 n)
  show ?case
  proof (cases "n < 10")
    case True
    with "1.prems" show ?thesis by (auto simp: digits.simps [of n])
  next
    case False
    with "1.prems" have "c \<in> set (digits (n div 10)) \<or> c = of_nat (48 + n mod 10)"
      by (auto simp: digits.simps [of n])
    then show ?thesis
    proof
      assume "c \<in> set (digits (n div 10))"
      with "1.IH" False show ?thesis by simp
    next
      assume "c = of_nat (48 + n mod 10)"
      moreover have "n mod 10 < 10" by simp
      ultimately show ?thesis by blast
    qed
  qed
qed

lemma String_no_letter: "0x63 \<notin> set (String n)"
proof
  assume "0x63 \<in> set (String n)"
  then have "0x63 \<in> set (digits (nat (- n))) \<or> 0x63 \<in> set (digits (nat n))"
    by (auto simp: String_def split: if_splits)
  then obtain d where "d < 10" "(0x63 :: code_unit) = of_nat (48 + d)"
    using digits_units by blast
  with digit_units show False by (auto simp del: of_nat_add)
qed

lemma String_not_contactEmail: "String n \<noteq> js ''contactEmail''"
proof
  assume "String n = js ''contactEmail''"
  moreover have "0x63 \<in> set (js ''contactEmail'')" by (simp add: js_def)
  ultimately show False using String_no_letter [of n] by simp
qed

lemma numeric_keys_assign: "numeric_keys fd \<Longrightarrow> numeric_keys (assign (String n) v fd)"
  by (auto simp: numeric_keys_def fst_set_assign)

lemma numeric_keys_no_email: "numeric_keys fd \<Longrightarrow> map_of fd (js ''contactEmail'') = None"
proof (rule ccontr)
  assume n: "numeric_keys fd" and "map_of fd (js ''contactEmail'') \<noteq> None"
  then obtain v where "map_of fd (js ''contactEmail'') = Some v" by auto
  then have "(js ''contactEmail'', v) \<in> set fd" by (rule map_of_SomeD)
  then have "js ''contactEmail'' \<in> fst ` set fd" by force
  with n obtain m where "js ''contactEmail'' = String m" unfolding numeric_keys_def by blast
  with String_not_contactEmail [of m] show False by simp
qed

lemma run_handler_numeric:
  assumes "form_handler h t" "numeric_keys (formData st)" "run_handler r h t chosen st = Returns (st', effects)"
  shows "numeric_keys (formData st')"
proof (cases h)
  case HandleChange
  with assms(1) obtain n where "target_name t = String n" by (auto simp: form_handler_def)
  with assms(2,3) HandleChange show ?thesis
    by (auto simp: run_handler_def handleChange_def numeric_keys_assign)
next
  case (HandleCheckboxChange questionId)
  with assms(2,3) show ?thesis
    by (auto simp: run_handler_def handleCheckboxChange_def Let_def numeric_keys_assign split: sum.splits)
next
  case (HandleFileChange questionId)
  with assms(2,3) show ?thesis
    by (auto simp: run_handler_def handleFileChange_def numeric_keys_assign split: option.splits)
next
  case (HandleFilePhotoChange questionId)
  with assms(2,3) show ?thesis
    by (auto simp: run_handler_def handleFilePhotoChange_def numeric_keys_assign split: option.splits)
next
  case (ToggleCollapse key)
  with assms(2,3) show ?thesis by (auto simp: run_handler_def)
qed (use assms(1) in \<open>simp_all add: form_handler_def\<close>)

lemma run_handlers_numeric:
  "\<forall>h \<in> set hs. form_handler h t \<Longrightarrow> numeric_keys (formData st) \<Longrightarrow>
   run_handlers r hs t chosen st = Returns (st', effects) \<Longrightarrow> numeric_keys (formData st')"
proof (induction hs arbitrary: st effects)
  case Nil
  then show ?case by simp
next
  case (Cons h hs)
  from Cons.prems(3) obtain st1 e1 e2 where r1: "run_handler r h t chosen st = Returns (st1, e1)"
    and r2: "run_handlers r hs t chosen st1 = Returns (st', e2)"
    by (auto split: outcome.splits prod.splits)
  from Cons.prems(1) have "form_handler h t" by simp
  from run_handler_numeric [OF this Cons.prems(2) r1] have "numeric_keys (formData st1)" .
  with Cons.IH [OF _ this r2] Cons.prems(1) show ?case by simp
qed

lemma handlers_for_mem:
  "h \<in> set (handlers_for ev n) \<Longrightarrow> \<exists>tag props kids. n = Element tag props kids \<and> (ev, h) \<in> set (bindings props)"
  by (cases n) (auto simp: handlers_for_def)

lemma bubbling_mem: "h \<in> set (bubbling ev ch) \<Longrightarrow> \<exists>n \<in> set ch. h \<in> set (handlers_for ev n)"
  by (auto simp: bubbling_def)

lemma bubbling_toggles:
  assumes "list_all (all_elements (shape qs)) ch" "h \<in> set (bubbling ev ch)" "ev \<noteq> ''onChange''"
  shows "form_handler h t"
proof -
  from bubbling_mem [OF assms(2)] obtain n where n: "n \<in> set ch" "h \<in> set (handlers_for ev n)" by blast
  from handlers_for_mem [OF n(2)] obtain tag props kids
    where e: "n = Element tag props kids" "(ev, h) \<in> set (bindings props)" by blast
  from assms(1) n(1) e(1) have "shape qs tag props kids" by (auto simp: list_all_iff)
  from bindings_shaped [OF this e(2)] assms(3) show ?thesis
    by (auto simp: form_handler_def)
qed

lemma target_handlers:
  assumes "all_elements (shape qs) n" "h \<in> set (handlers_for ''onChange'' n)"
  shows "form_handler h (event_target n v c)"
proof -
  from handlers_for_mem [OF assms(2)] obtain tag props kids
    where e: "n = Element tag props kids" "(''onChange'', h) \<in> set (bindings props)" by blast
  from assms(1) e(1) have "shape qs tag props kids" by simp
  from bindings_shaped [OF this e(2)] e(1) show ?thesis
    by (auto simp: form_handler_def event_target_def)
qed

lemma form_chain_subset: "form_chain ch = Some fch \<Longrightarrow> set fch \<subseteq> set ch"
  by (induction ch arbitrary: fch) (auto split: option.splits if_splits)

lemma changeable_solid: "changeable n \<Longrightarrow> solid n"
  by (cases n) (auto simp: changeable_def solid_def)

lemma dispatch_numeric:
  assumes "all_elements (shape qs) tree" "chain path tree = Some ch"
    and "numeric_keys (formData st)" "dispatch r ch ev st = Returns (st', effects)"
  shows "numeric_keys (formData st')"
proof -
  have shaped: "list_all (all_elements (shape qs)) ch"
    using assms(1,2) by (rule chain_shaped)
  have ne: "ch \<noteq> []" using assms(2) by (rule chain_nonempty)
  show ?thesis
  proof (cases ev)
    case (Change v c chosen)
    show ?thesis
    proof (cases "changeable (last ch)")
      case False
      with assms(3,4) Change show ?thesis by (simp add: dispatch_def)
    next
      case True
      then have "solid (last ch)" by (rule changeable_solid)
      from bubbling_target [OF assms(1,2) this]
      have b: "bubbling ''onChange'' ch = handlers_for ''onChange'' (last ch)" .
      from shaped ne have "all_elements (shape qs) (last ch)" by (simp add: list_all_iff)
      then have "\<forall>h \<in> set (handlers_for ''onChange'' (last ch)). form_handler h (event_target (last ch) v c)"
        by (simp add: target_handlers)
      moreover from assms(4) Change True b
      have "run_handlers r (handlers_for ''onChange'' (last ch)) (event_target (last ch) v c) chosen st
          = Returns (st', effects)"
        by (simp add: dispatch_def)
      ultimately show ?thesis using assms(3) run_handlers_numeric by blast
    qed
  next
    case Click
    from assms(4) Click obtain st1 e1
      where r1: "run_handlers r (bubbling ''onClick'' ch) (event_target (last ch) [] False) None st = Returns (st1, e1)"
      by (auto simp: dispatch_def split: outcome.splits prod.splits)
    have "\<forall>h \<in> set (bubbling ''onClick'' ch). form_handler h (event_target (last ch) [] False)"
      using shaped by (auto intro: bubbling_toggles)
    from run_handlers_numeric [OF this assms(3) r1] have n1: "numeric_keys (formData st1)" .
    show ?thesis
    proof (cases "submits (last ch)")
      case False
      with assms(4) Click r1 n1 show ?thesis by (simp add: dispatch_def)
    next
      case True
      show ?thesis
      proof (cases "form_chain ch")
        case None
        with assms(4) Click r1 n1 True show ?thesis by (simp add: dispatch_def)
      next
        case (Some fch)
        with assms(4) Click r1 True obtain st2 e2
          where r2: "run_handlers r (bubbling ''onSubmit'' fch) (event_target (last fch) [] False) None st1 = Returns (st2, e2)"
            and res: "st' = st2 \<or> st' = initial_state"
          by (auto simp: dispatch_def split: outcome.splits prod.splits if_splits)
        from shaped form_chain_subset [OF Some] have "list_all (all_elements (shape qs)) fch"
          by (auto simp: list_all_iff)
        then have "\<forall>h \<in> set (bubbling ''onSubmit'' fch). form_handler h (event_target (last fch) [] False)"
          by (auto intro: bubbling_toggles)
        from run_handlers_numeric [OF this n1 r2] have "numeric_keys (formData st2)" .
        moreover have "numeric_keys (formData initial_state)"
          by (simp add: initial_state_def numeric_keys_def)
        ultimately show ?thesis using res by auto
      qed
    qed
  qed
qed

lemma ui_event_numeric:
  assumes "numeric_keys (formData st)" "ui_event depth r path ev st = Returns (st', effects)"
  shows "numeric_keys (formData st')"
proof -
  from assms(2) obtain tree where t: "render depth st = Returns tree"
    by (auto simp: ui_event_def split: outcome.splits)
  show ?thesis
  proof (cases "chain path tree")
    case None
    with assms t show ?thesis by (simp add: ui_event_def)
  next
    case (Some ch)
    with assms(2) t have "dispatch r ch ev st = Returns (st', effects)"
      by (simp add: ui_event_def)
    from dispatch_numeric [OF render_shape [OF t] Some assms(1) this] show ?thesis .
  qed
qed

subsection \<open>Evaluations on the concrete forms\<close>

lemma orphan_state_keys: "rendered_keys 2 orphan_state = Some [10, 10]"
  by code_simp

lemma tiny_state_submit:
  "(case render 2 tiny_state of
      Returns tree \<Rightarrow> map_option last (chain [3, 1] tree) = Some submit_button
    | _ \<Rightarrow> False)"
  by code_simp

lemma tiny_state_fetched:
  "fst (fetchQuestions (Response (Some [scenario_q10]) None) initial_state) = tiny_state"
  by code_simp

lemma typed_state_acted:
  "ui_event 2 remote_ok [3, 0, 1, 0, 2] (Change (js ''yes'') False None) tiny_state = Returns (typed_state, [])"
  by code_simp

subsection \<open>C3: a question whose parent is not among the fetched questions\<close>

text \<open>
  C3 (as amended). Let a question have a parent identifier other than 0 that is the
  identifier of no fetched question, and an identifier of its own that no other fetched
  question shares. Then for every state of the component, whatever the Answer State
  holds, no element rendered for the state carries the key of that question: the
  question is never rendered.
\<close>

theorem orphan_never_renders:
  assumes "rendered_keys depth st = Some ks"
    and "parent_question_id q = Some p" and "p \<noteq> 0"
    and "\<forall>r \<in> set (questions st). qid r \<noteq> p"
    and "\<forall>r \<in> set (questions st). qid r = qid q \<longrightarrow> r = q"
  shows "qid q \<notin> set ks"
proof
  assume k: "qid q \<in> set ks"
  from assms(1) obtain tree where t: "render depth st = Returns tree" and ks: "ks = element_keys tree"
    by (auto simp: rendered_keys_def split: outcome.splits)
  from element_keys_shaped [OF render_shape [OF t]] k ks have "renderable (questions st) (qid q)"
    by simp
  then obtain r where r: "r \<in> set (questions st)" "qid r = qid q"
    and c: "\<not> truthy_number (parent_question_id r) \<or> (\<exists>p' \<in> set (questions st). parent_question_id r = Some (qid p'))"
    by (auto simp: renderable_def)
  from r assms(5) have "r = q" by simp
  with c assms(2,3,4) show False by (auto simp: truthy_number_def)
qed

theorem orphan_never_renders_witness:
  "rendered_keys 2 orphan_state = Some [10, 10] \<and> 12 \<notin> set [10, 10 :: int] \<and>
   shouldDisplay (formData orphan_state) orphan_question"
proof -
  have "qid orphan_question \<notin> set [10, 10]"
    using orphan_state_keys
  proof (rule orphan_never_renders)
    show "parent_question_id orphan_question = Some 99" by (simp add: orphan_question_def)
    show "(99 :: int) \<noteq> 0" by simp
    show "\<forall>r \<in> set (questions orphan_state). qid r \<noteq> 99"
      by (simp add: orphan_state_def scenario_q10_def orphan_question_def)
    show "\<forall>r \<in> set (questions orphan_state). qid r = qid orphan_question \<longrightarrow> r = orphan_question"
      by (simp add: orphan_state_def scenario_q10_def orphan_question_def)
  qed
  moreover have "shouldDisplay (formData orphan_state) orphan_question" by code_simp
  ultimately show ?thesis using orphan_state_keys by (simp add: orphan_question_def)
qed

text \<open>
  The claim as stated fails for a parent identifier of 0: no question has the identifier
  0, and the question is rendered as a top-level question (its key 5 is in the tree, on
  the wrapper and on the label).
\<close>

theorem zero_parent_renders:
  "rendered_keys 2 zero_parent_state = Some [5, 5] \<and>
   parent_question_id zero_parent_question = Some 0 \<and>
   map qid (questions zero_parent_state) = [5]"
  by code_simp

section \<open>Lemmas on inherited properties and reachable worlds\<close>

subsection \<open>With ordinary names the grouping leaves \<^verbatim>\<open>Object.prototype\<close> alone\<close>

lemma proto_inherited: "List.member inherited_names (js ''__proto__'')"
  by code_simp

lemma group_question_ordinary:
  assumes "\<not> List.member inherited_names (section_name q)"
    and "\<not> List.member inherited_names (subsection_name q)"
  shows "group_question (acc, []) q =
    Returns (modify (section_name q) [] (modify (subsection_name q) [] (\<lambda>g. g @ [q])) acc, [])"
proof -
  from assms(1) proto_inherited have "section_name q \<noteq> js ''__proto__''" by auto
  with assms show ?thesis
    by (simp add: group_question_def into_group_def modify_def Let_def split: option.splits)
qed

lemma grouping_ordinary:
  "ordinary_names qs \<Longrightarrow>
   grouping qs (acc, []) =
     Returns (foldl (\<lambda>acc question. modify (section_name question) []
                (modify (subsection_name question) [] (\<lambda>g. g @ [question])) acc) acc qs, [])"
  by (induction qs arbitrary: acc) (simp_all add: ordinary_names_def group_question_ordinary)

lemma groupedQuestions_in_ordinary:
  "ordinary_names qs \<Longrightarrow> groupedQuestions_in [] qs = Returns (groupedQuestions qs, [])"
  by (simp add: groupedQuestions_in_def groupedQuestions_def grouping_ordinary)

lemma group_question_untouched:
  assumes "\<not> List.member inherited_names (section_name q)"
    and "group_question (acc, []) q = Returns (groups, proto)"
  shows "proto = []"
proof -
  from assms(1) proto_inherited have "section_name q \<noteq> js ''__proto__''" by auto
  with assms show ?thesis
    by (auto simp: group_question_def into_group_def Let_def split: option.splits if_splits)
qed

lemma grouping_untouched:
  "ordinary_sections qs \<Longrightarrow> grouping qs (acc, []) = Returns (groups, proto) \<Longrightarrow> proto = []"
proof (induction qs arbitrary: acc)
  case Nil
  then show ?case by simp
next
  case (Cons q qs)
  from Cons.prems(2) obtain acc' proto' where g: "group_question (acc, []) q = Returns (acc', proto')"
    and r: "grouping qs (acc', proto') = Returns (groups, proto)"
    by (auto split: outcome.splits)
  from Cons.prems(1) have "\<not> List.member inherited_names (section_name q)" "ordinary_sections qs"
    by (simp_all add: ordinary_sections_def)
  from group_question_untouched [OF this(1) g] this(2) r Cons.IH show ?case by simp
qed

subsection \<open>With nothing added the handlers are those of the sections above\<close>

lemma contactEmail_untouched: "contactEmail [] fd = Stored (get fd (js ''contactEmail''))"
  by (simp add: contactEmail_def get_def split: option.splits)

lemma handleSaveProgress_in_untouched:
  "handleSaveProgress_in [] fid upsert_progress st = handleSaveProgress fid upsert_progress st"
  by (simp add: handleSaveProgress_in_def handleSaveProgress_def contactEmail_untouched Let_def
      savePayload_def save_row_in_def save_row_def split: option.splits)

lemma handleSearch_in_untouched:
  "handleSearch_in [] find_inherited env st = handleSearch env st"
  by (simp add: handleSearch_in_def handleSearch_def contactEmail_untouched Let_def resume_def)

subsection \<open>No handler changes the questions\<close>

lemma run_handler_questions:
  "run_handler r h t chosen st = Returns (st', effects) \<Longrightarrow> questions st' = questions st"
  by (cases h)
     (auto simp: run_handler_def handleSubmit_def handleSaveProgress_def handleSearch_def Let_def
        search_failed_def
        split: sum.splits option.splits if_splits outcome.splits)

lemma run_handlers_questions:
  "run_handlers r hs t chosen st = Returns (st', effects) \<Longrightarrow> questions st' = questions st"
proof (induction hs arbitrary: st effects)
  case Nil
  then show ?case by simp
next
  case (Cons h hs)
  from Cons.prems obtain st1 e1 e2
    where a: "run_handler r h t chosen st = Returns (st1, e1)"
      and b: "run_handlers r hs t chosen st1 = Returns (st', e2)"
    by (auto split: outcome.splits prod.splits)
  from run_handler_questions [OF a] Cons.IH [OF b] show ?case by simp
qed

lemma dispatch_questions:
  assumes "dispatch r ch ev st = Returns (st', effects)"
  shows "questions st' = questions st \<or> st' = initial_state"
  using assms
  by (auto simp: dispatch_def split: event.splits if_splits outcome.splits prod.splits option.splits
      dest!: run_handlers_questions)

lemma ui_event_questions:
  assumes "ui_event depth r path ev st = Returns (st', effects)"
  shows "questions st' = questions st \<or> st' = initial_state"
  using assms
  by (auto simp: ui_event_def split: outcome.splits option.splits dest: dispatch_questions)

subsection \<open>The invariant of the worlds reachable with ordinary sections\<close>

lemma reachable_untouched:
  assumes "reachable ordinary_sections w"
  shows "prototype w = [] \<and> ordinary_sections (questions (component w)) \<and>
    numeric_keys (formData (component w))"
  using assms
proof (induction rule: reachable.induct)
  case start
  show ?case by (simp add: initial_state_def numeric_keys_def ordinary_sections_def)
next
  case (fetched w response)
  then show ?case by (simp add: fetchQuestions_def)
next
  case (rendered w groups proto)
  then have "grouping (questions (component w)) ([], []) = Returns (groups, proto)"
    by (simp add: groupedQuestions_in_def)
  with rendered.IH have "proto = []" by (auto dest: grouping_untouched)
  with rendered.IH show ?case by simp
next
  case (acted w depth r path ev w' effects)
  from acted.IH have o: "ordinary_sections (questions (component w))"
    and n: "numeric_keys (formData (component w))" by simp_all
  from acted.hyps(2) obtain st
    where u: "ui_event depth r path ev (component w) = Returns (st, effects)"
      and w': "w' = \<lparr>component = st, prototype = []\<rparr>"
    by (auto simp: world_event_def split: outcome.splits if_splits)
  from ui_event_numeric [OF n u] have "numeric_keys (formData st)" .
  moreover from ui_event_questions [OF u] o have "ordinary_sections (questions st)"
    by (auto simp: initial_state_def ordinary_sections_def)
  ultimately show ?case using w' by simp
next
  case (mounted w)
  then show ?case by (simp add: initial_state_def numeric_keys_def ordinary_sections_def)
qed

subsection \<open>Evaluations on the concrete worlds\<close>

lemma ordinary_sections_tiny: "ordinary_sections [scenario_q10]"
  by code_simp

lemma ordinary_tiny: "ordinary_names [scenario_q10]"
  by code_simp

lemma tiny_world_acted:
  "world_event 2 remote_ok [3, 0, 1, 0, 2] (Change (js ''yes'') False None) tiny_world = Returns (typed_world, [])"
proof -
  have "ordinary_names (questions (component tiny_world))"
    by (simp add: tiny_world_def tiny_state_def ordinary_tiny)
  then show ?thesis
    using typed_state_acted
    by (simp add: world_event_def groupedQuestions_in_ordinary tiny_world_def typed_world_def)
qed

lemma inherited_world_fetched:
  "fst (fetchQuestions (Response (Some [proto_question]) None) initial_state) = component inherited_world"
  by code_simp

lemma inherited_world_rendered:
  "groupedQuestions_in [] [proto_question] = Returns ([], prototype inherited_world)"
  by code_simp

subsection \<open>C9: the Submit control\<close>

text \<open>
  C9. Whenever the component renders, no element of the tree binds \<^verbatim>\<open>handleSubmit\<close> to
  any event, the Submit button is in the tree unless the form was submitted, and a
  click on the Submit button runs no handler and has no default action: the state (the
  questions, the Answer State, the collapse flags, the loading and submitted flags) is
  unchanged and no remote call or other effect is issued.
\<close>

theorem submit_click_does_nothing:
  assumes "render depth st = Returns tree"
  shows "HandleSubmit \<notin> set (bound_handlers tree) \<and>
    (\<not> submitted st \<longrightarrow> (\<exists>path ch. chain path tree = Some ch \<and> last ch = submit_button)) \<and>
    (\<forall>path ch. chain path tree = Some ch \<and> last ch = submit_button \<longrightarrow>
       dispatch r ch Click st = Returns (st, []) \<and> ui_event depth r path Click st = Returns (st, []))"
proof -
  have s: "all_elements (shape (questions st)) tree" using assms by (rule render_shape)
  have "HandleSubmit \<notin> set (bound_handlers tree)"
    using bound_handlers_shaped [OF s] by blast
  moreover have "\<exists>path ch. chain path tree = Some ch \<and> last ch = submit_button" if "\<not> submitted st"
    using assms that by (rule submit_button_rendered)
  moreover have "dispatch r ch Click st = Returns (st, []) \<and> ui_event depth r path Click st = Returns (st, [])"
    if "chain path tree = Some ch \<and> last ch = submit_button" for path ch
  proof -
    from that have c: "chain path tree = Some ch" "last ch = submit_button" by simp_all
    from click_submit_button [OF s c] have "dispatch r ch Click st = Returns (st, [])" .
    with assms c(1) show ?thesis by (simp add: ui_event_def)
  qed
  ultimately show ?thesis by blast
qed

theorem submit_click_does_nothing_witness:
  "ui_event 2 remote_ok [3, 1] Click tiny_state = Returns (tiny_state, []) \<and> \<not> submitted tiny_state"
proof -
  from tiny_state_submit obtain tree ch where t: "render 2 tiny_state = Returns tree"
    and c: "chain [3, 1] tree = Some ch" "last ch = submit_button"
    by (auto split: outcome.splits)
  from submit_click_does_nothing [OF t, of remote_ok] c show ?thesis
    by (simp add: tiny_state_def)
qed

subsection \<open>C10: the email guards\<close>

text \<open>
  C10 (as amended). Take the forms in which no question has a section named like a
  built-in property of \<^verbatim>\<open>Object.prototype\<close> (such as \<^verbatim>\<open>__proto__\<close> or \<^verbatim>\<open>constructor\<close>).
  In every world reachable from the start of the page by the arrival of such forms, by
  renders, by user events on the rendered form and by a fresh mount,
  \<^verbatim>\<open>Object.prototype\<close> has nothing added and every key of the Answer State is the
  decimal numeral of an integer, so \<^verbatim>\<open>formData.contactEmail\<close> is undefined; both
  \<^verbatim>\<open>handleSaveProgress\<close> and \<^verbatim>\<open>handleSearch\<close> then stop at their email guard: they show
  the email prompt, leave the state as it is and issue no remote read or write.
\<close>

theorem email_guard_always_stops:
  assumes "reachable ordinary_sections w"
  shows "prototype w = [] \<and>
    (\<forall>k \<in> fst ` set (formData (component w)). \<exists>n. k = String n) \<and>
    map_of (formData (component w)) (js ''contactEmail'') = None \<and>
    handleSaveProgress_in (prototype w) fid upsert_progress (component w)
      = (component w, [Alert ''Please enter your email before saving progress.'']) \<and>
    handleSearch_in (prototype w) find_inherited env (component w)
      = Returns (component w, [Alert ''Please enter an email to search.''])"
proof -
  from reachable_untouched [OF assms]
  have p: "prototype w = []" and n: "numeric_keys (formData (component w))" by simp_all
  from n have e: "map_of (formData (component w)) (js ''contactEmail'') = None"
    by (rule numeric_keys_no_email)
  then have "contactEmail [] (formData (component w)) = Stored JUndefined"
    by (simp add: contactEmail_def)
  with p n e show ?thesis
    by (simp add: handleSaveProgress_in_def handleSearch_in_def Let_def numeric_keys_def)
qed

theorem email_guard_always_stops_witness:
  "reachable ordinary_sections typed_world \<and>
   map fst (formData (component typed_world)) = [String 10] \<and>
   handleSaveProgress_in (prototype typed_world) 1 progress_ok (component typed_world)
     = (component typed_world, [Alert ''Please enter your email before saving progress.'']) \<and>
   handleSearch_in (prototype typed_world) no_match no_organizations (component typed_world)
     = Returns (component typed_world, [Alert ''Please enter an email to search.''])"
proof -
  have "reachable ordinary_sections \<lparr>component = initial_state, prototype = []\<rparr>"
    by (rule reachable.start)
  from reachable.fetched [OF this, of "Response (Some [scenario_q10]) None"]
  have "reachable ordinary_sections tiny_world"
    by (simp add: tiny_state_fetched tiny_world_def ordinary_sections_tiny tiny_state_def)
  then have r: "reachable ordinary_sections typed_world"
    using tiny_world_acted by (rule reachable.acted)
  from email_guard_always_stops [OF r, of 1 progress_ok no_match no_organizations] r
  show ?thesis by (simp add: typed_world_def typed_state_def String_10)
qed

text \<open>
  The claim as stated fails for a form with a question of section \<^verbatim>\<open>__proto__\<close> and
  subsection \<^verbatim>\<open>contactEmail\<close>. For it \<^verbatim>\<open>acc[section]\<close> of line 488 is
  \<^verbatim>\<open>Object.prototype\<close>, so lines 489-490 store the group there. The Answer State has no
  entry \<^verbatim>\<open>contactEmail\<close>, but \<^verbatim>\<open>formData.contactEmail\<close> now reads the inherited array, which
  is truthy: \<^verbatim>\<open>handleSaveProgress\<close> passes its guard and upserts, \<^verbatim>\<open>handleSearch\<close> passes
  its guard and queries the organizations.
\<close>

theorem inherited_email_passes_guards:
  "reachable any_form inherited_world \<and>
   map_of (formData (component inherited_world)) (js ''contactEmail'') = None \<and>
   handleSaveProgress_in (prototype inherited_world) 1 progress_ok (component inherited_world)
     = (component inherited_world,
        [Upsert ''progress'' [] ''form_id,contactEmail,question_id'', Alert ''Progress saved successfully!'']) \<and>
   handleSearch_in (prototype inherited_world) no_match no_organizations (component inherited_world)
     = Returns (component inherited_world,
         [SelectSingleInherited ''organizations'' ''id'' ''contactEmail'' [proto_question],
          ConsoleError ''Error fetching progress:'', Alert ''Failed to retrieve saved progress.''])"
proof -
  have "reachable any_form \<lparr>component = initial_state, prototype = []\<rparr>"
    by (rule reachable.start)
  from reachable.fetched [OF this, of "Response (Some [proto_question]) None"]
  have f: "reachable any_form \<lparr>component = component inherited_world, prototype = []\<rparr>"
    by (simp add: inherited_world_fetched any_form_def)
  from reachable.rendered [OF f, of "[]" "prototype inherited_world"]
  have r: "reachable any_form inherited_world"
    by (simp add: inherited_world_rendered inherited_world_def)
  have s: "handleSaveProgress_in (prototype inherited_world) 1 progress_ok (component inherited_world)
     = (component inherited_world,
        [Upsert ''progress'' [] ''form_id,contactEmail,question_id'', Alert ''Progress saved successfully!''])"
    by code_simp
  have h: "handleSearch_in (prototype inherited_world) no_match no_organizations (component inherited_world)
     = Returns (component inherited_world,
         [SelectSingleInherited ''organizations'' ''id'' ''contactEmail'' [proto_question],
          ConsoleError ''Error fetching progress:'', Alert ''Failed to retrieve saved progress.''])"
    by code_simp
  have "map_of (formData (component inherited_world)) (js ''contactEmail'') = None"
    by (simp add: inherited_world_def)
  with r s h show ?thesis by simp
qed

end
